theory Spec2Isabelle
  imports Complex_Main
begin

section \<open>Python values, errors and the object heap\<close>

text \<open>
  The program under verification is \<^verbatim>\<open>examples/computing.py\<close>: a pool of blades, a set
  of tasks, and the constraints that place tasks on blades. Objects are mutable in Python,
  so they live in a heap and are handed around as references; every operation of the
  program is a function from the heap to a result (or an exception) and the heap after it.
\<close>

text \<open>
  The exceptions. \<open>IndexError\<close> and \<open>AssertionError\<close> are Python's.
  \<open>ConfigurationError\<close> is the error the specification names for an invalid
  configuration; no statement of the program raises it. \<open>DanglingRef\<close> is the model's own:
  a reference that no constructor returned. Python has no such reference; the model gives
  it an error so that no read of the heap is left unspecified.
\<close>

datatype py_error = IndexError | AssertionError | ConfigurationError | DanglingRef

text \<open>
  A Python number or truth value as the program passes it around (\<^verbatim>\<open>.4\<close>, \<^verbatim>\<open>8\<close>,
  \<^verbatim>\<open>True\<close>). The program computes nothing with them: it stores them and embeds them in
  constraints. A float stands for the number it denotes.
\<close>

datatype pyval = PyInt int | PyFloat real | PyBool bool

text \<open>
  Modelled from the spec: the variable objects of the \<^verbatim>\<open>smartalloc\<close> package
  (\<^verbatim>\<open>import smartalloc as sa\<close>), which is not among the sources. The spec gives three
  domains: real, integer and boolean. Each call of \<^verbatim>\<open>sa.Real()\<close>, \<^verbatim>\<open>sa.Int()\<close> or
  \<^verbatim>\<open>sa.Bool()\<close> returns a new object; its identity is the number of variables created
  before it.
\<close>

datatype var = RealVar nat | IntVar nat | BoolVar nat

text \<open>
  Modelled from the spec: the constraint objects of the \<^verbatim>\<open>smartalloc\<close> package, which is
  not among the sources. The spec (External Interfaces) lists what the package offers:
  n-ary conjunction and disjunction, equality, less-or-equal, a conditional select, and an
  aggregate sum over a sequence of numeric expressions; constraints are opaque composable
  propositions. An \<open>expr\<close> is the term such a call builds. \<open>LeE\<close>, \<open>GeE\<close> and \<open>EqE\<close> are
  the overloaded operators \<^verbatim>\<open><=\<close>, \<^verbatim>\<open>>=\<close> and \<^verbatim>\<open>==\<close> on solver expressions; \<open>ConstE\<close> is a
  Python value used as an operand.
\<close>

datatype expr =
    VarE var
  | ConstE pyval
  | IfE expr expr expr
  | SumE "expr list"
  | LeE expr expr
  | GeE expr expr
  | EqE expr expr
  | AllE "expr list"
  | AnyE "expr list"

type_synonym ref = nat

text \<open>
  The class object \<^verbatim>\<open>Blade\<close> that one call of \<^verbatim>\<open>define_blade\<close> makes, with its class
  attributes.
\<close>

record blade_class =
  num_tasks :: int
  cpu :: "var list"
  mem :: "var list"

text \<open>
  An instance of such a class. \<open>blade_type\<close> is \<^verbatim>\<open>type(self)\<close>, through which
  \<^verbatim>\<open>self.num_tasks\<close>, \<^verbatim>\<open>self.cpu\<close> and \<^verbatim>\<open>self.mem\<close> resolve.
\<close>

record blade =
  blade_type :: ref
  num_cpu :: pyval
  total_mem :: pyval
  running :: "var list"

text \<open>
  An instance of \<^verbatim>\<open>Task\<close>; \<open>tid\<close>, \<open>tcpu\<close> and \<open>tmem\<close> are its attributes \<^verbatim>\<open>id\<close>, \<^verbatim>\<open>cpu\<close>
  and \<^verbatim>\<open>mem\<close>.
\<close>

record task =
  tid :: int
  tcpu :: pyval
  tmem :: pyval

text \<open>
  The heap: the number of solver variables created so far, and the class, blade and task
  objects, each addressed by its position.
\<close>

record heap =
  fresh :: nat
  classes :: "blade_class list"
  blades :: "blade list"
  tasks :: "task list"

definition heap0 :: heap where
  "heap0 = \<lparr>fresh = 0, classes = [], blades = [], tasks = []\<rparr>"

type_synonym 'a py = "heap \<Rightarrow> (py_error + 'a) \<times> heap"

definition py_return :: "'a \<Rightarrow> 'a py" where
  "py_return x = (\<lambda>h. (Inr x, h))"

definition py_raise :: "py_error \<Rightarrow> 'a py" where
  "py_raise e = (\<lambda>h. (Inl e, h))"

text \<open>Sequencing: an exception ends the evaluation and keeps the heap as it is by then.\<close>

definition py_bind :: "'a py \<Rightarrow> ('a \<Rightarrow> 'b py) \<Rightarrow> 'b py" where
  "py_bind m f = (\<lambda>h. case m h of (Inl e, h') \<Rightarrow> (Inl e, h') | (Inr x, h') \<Rightarrow> f x h')"

text \<open>A list comprehension \<^verbatim>\<open>[f(x) for x in xs]\<close>: left to right, stopping at the first exception.\<close>

fun py_comprehension :: "('a \<Rightarrow> 'b py) \<Rightarrow> 'a list \<Rightarrow> 'b list py" where
  "py_comprehension f [] = py_return []"
| "py_comprehension f (x # xs) =
     py_bind (f x) (\<lambda>y. py_bind (py_comprehension f xs) (\<lambda>ys. py_return (y # ys)))"

text \<open>A comprehension with a condition, \<^verbatim>\<open>[x for x in xs if p(x)]\<close>.\<close>

fun py_comprehension_if :: "('a \<Rightarrow> bool py) \<Rightarrow> 'a list \<Rightarrow> 'a list py" where
  "py_comprehension_if p [] = py_return []"
| "py_comprehension_if p (x # xs) =
     py_bind (p x) (\<lambda>c. py_bind (py_comprehension_if p xs) (\<lambda>ys.
     py_return (if c then x # ys else ys)))"

text \<open>\<^verbatim>\<open>range(n)\<close>: empty when \<open>n \<le> 0\<close>.\<close>

definition py_range :: "int \<Rightarrow> int list" where
  "py_range n = map int [0..<nat n]"

text \<open>\<^verbatim>\<open>xs[i]\<close>: a negative index counts from the end; out of range raises \<open>IndexError\<close>.\<close>

definition py_index :: "'a list \<Rightarrow> int \<Rightarrow> 'a py" where
  "py_index xs i =
     (if 0 \<le> i \<and> i < int (length xs) then py_return (xs ! nat i)
      else if - int (length xs) \<le> i \<and> i < 0 then py_return (xs ! nat (int (length xs) + i))
      else py_raise IndexError)"

text \<open>\<^verbatim>\<open>assert c\<close>.\<close>

definition py_assert :: "bool \<Rightarrow> unit py" where
  "py_assert c = (if c then py_return () else py_raise AssertionError)"

subsection \<open>Allocation and attribute access\<close>

text \<open>
  Modelled from the spec: \<^verbatim>\<open>sa.Real()\<close> of the \<^verbatim>\<open>smartalloc\<close> package, which is not among
  the sources: the constructor of a variable of the real domain. It returns a variable
  that did not exist before.
\<close>

definition sa_Real :: "var py" where
  "sa_Real = (\<lambda>h. (Inr (RealVar (fresh h)), h\<lparr>fresh := Suc (fresh h)\<rparr>))"

text \<open>
  Modelled from the spec: \<^verbatim>\<open>sa.Int()\<close> of the \<^verbatim>\<open>smartalloc\<close> package, which is not among
  the sources: the constructor of a variable of the integer domain.
\<close>

definition sa_Int :: "var py" where
  "sa_Int = (\<lambda>h. (Inr (IntVar (fresh h)), h\<lparr>fresh := Suc (fresh h)\<rparr>))"

text \<open>
  Modelled from the spec: \<^verbatim>\<open>sa.Bool()\<close> of the \<^verbatim>\<open>smartalloc\<close> package, which is not among
  the sources: the constructor of a variable of the boolean domain.
\<close>

definition sa_Bool :: "var py" where
  "sa_Bool = (\<lambda>h. (Inr (BoolVar (fresh h)), h\<lparr>fresh := Suc (fresh h)\<rparr>))"

text \<open>A new object goes to the end of its table; its reference is its position.\<close>

definition new_class :: "blade_class \<Rightarrow> ref py" where
  "new_class k = (\<lambda>h. (Inr (length (classes h)), h\<lparr>classes := classes h @ [k]\<rparr>))"

definition new_blade :: "blade \<Rightarrow> ref py" where
  "new_blade b = (\<lambda>h. (Inr (length (blades h)), h\<lparr>blades := blades h @ [b]\<rparr>))"

definition new_task :: "task \<Rightarrow> ref py" where
  "new_task t = (\<lambda>h. (Inr (length (tasks h)), h\<lparr>tasks := tasks h @ [t]\<rparr>))"

text \<open>Reading the attributes of an object.\<close>

definition get_class :: "ref \<Rightarrow> blade_class py" where
  "get_class r = (\<lambda>h. if r < length (classes h) then (Inr (classes h ! r), h) else (Inl DanglingRef, h))"

definition get_blade :: "ref \<Rightarrow> blade py" where
  "get_blade r = (\<lambda>h. if r < length (blades h) then (Inr (blades h ! r), h) else (Inl DanglingRef, h))"

definition get_task :: "ref \<Rightarrow> task py" where
  "get_task r = (\<lambda>h. if r < length (tasks h) then (Inr (tasks h ! r), h) else (Inl DanglingRef, h))"

subsection \<open>The constraint combinators of \<^verbatim>\<open>smartalloc\<close>\<close>

text \<open>
  Modelled from the spec: \<^verbatim>\<open>sa.If\<close> of the \<^verbatim>\<open>smartalloc\<close> package, which is not among the
  sources: the conditional select. It builds an expression and does nothing else.
\<close>

definition sa_If :: "expr \<Rightarrow> expr \<Rightarrow> expr \<Rightarrow> expr" where
  "sa_If c t e = IfE c t e"

text \<open>
  Modelled from the spec: \<^verbatim>\<open>sa.all\<close> of the \<^verbatim>\<open>smartalloc\<close> package, which is not among the
  sources: the conjunction of its arguments.
\<close>

definition sa_all :: "expr list \<Rightarrow> expr" where
  "sa_all cs = AllE cs"

text \<open>
  Modelled from the spec: \<^verbatim>\<open>sa.any\<close> of the \<^verbatim>\<open>smartalloc\<close> package, which is not among the
  sources: the disjunction of its arguments.
\<close>

definition sa_any :: "expr list \<Rightarrow> expr" where
  "sa_any cs = AnyE cs"

text \<open>
  Modelled from the spec: \<^verbatim>\<open>sa.sum\<close> of the \<^verbatim>\<open>smartalloc\<close> package, which is not among the
  sources, called with the sequence unpacked into positional arguments
  (a starred argument). The spec knows one aggregate sum over a sequence of numeric expressions.
\<close>

definition sa_sum_args :: "expr list \<Rightarrow> expr" where
  "sa_sum_args es = SumE es"

text \<open>
  Modelled from the spec: \<^verbatim>\<open>sa.sum\<close> of the \<^verbatim>\<open>smartalloc\<close> package, which is not among the
  sources, called with the sequence as its one argument, \<^verbatim>\<open>sa.sum(xs)\<close>. The spec knows
  one aggregate sum over a sequence of numeric expressions.
\<close>

definition sa_sum_list :: "expr list \<Rightarrow> expr" where
  "sa_sum_list es = SumE es"

section \<open>The program\<close>

subsection \<open>\<^verbatim>\<open>define_blade\<close> and the class \<^verbatim>\<open>Blade\<close>\<close>

text \<open>
  The class body runs once per call of \<^verbatim>\<open>define_blade\<close>: it creates \<^verbatim>\<open>num_tasks\<close> real
  variables, then \<^verbatim>\<open>num_tasks\<close> integer variables, and the class object holding them.
\<close>

definition define_blade :: "int \<Rightarrow> ref py" where
  "define_blade n =
     py_bind (py_comprehension (\<lambda>_. sa_Real) (py_range n)) (\<lambda>cs.
     py_bind (py_comprehension (\<lambda>_. sa_Int) (py_range n)) (\<lambda>ms.
     new_class \<lparr>num_tasks = n, cpu = cs, mem = ms\<rparr>))"

text \<open>
  \<^verbatim>\<open>Blade(num_cpu, total_mem)\<close> for the class object \<open>c\<close>: \<^verbatim>\<open>__init__\<close> stores the two
  capacities and creates \<^verbatim>\<open>self.num_tasks\<close> boolean variables.
\<close>

definition Blade_init :: "ref \<Rightarrow> pyval \<Rightarrow> pyval \<Rightarrow> ref py" where
  "Blade_init c ncpu tmem' =
     py_bind (get_class c) (\<lambda>k.
     py_bind (py_comprehension (\<lambda>_. sa_Bool) (py_range (num_tasks k))) (\<lambda>rs.
     new_blade \<lparr>blade_type = c, num_cpu = ncpu, total_mem = tmem', running = rs\<rparr>))"

text \<open>\<^verbatim>\<open>_cond(self, i, rsrc)\<close>: \<^verbatim>\<open>sa.If(self.running[i], rsrc[i], 0)\<close>.\<close>

definition cond :: "ref \<Rightarrow> int \<Rightarrow> var list \<Rightarrow> expr py" where
  "cond self i rsrc =
     py_bind (get_blade self) (\<lambda>b.
     py_bind (py_index (running b) i) (\<lambda>r.
     py_bind (py_index rsrc i) (\<lambda>c.
     py_return (sa_If (VarE r) (VarE c) (ConstE (PyInt 0))))))"

text \<open>\<^verbatim>\<open>_cond_cpu(self, i)\<close>: \<^verbatim>\<open>self.cpu\<close> is the class attribute.\<close>

definition cond_cpu :: "ref \<Rightarrow> int \<Rightarrow> expr py" where
  "cond_cpu self i =
     py_bind (get_blade self) (\<lambda>b.
     py_bind (get_class (blade_type b)) (\<lambda>k.
     cond self i (cpu k)))"

text \<open>\<^verbatim>\<open>_cond_mem(self, i)\<close>.\<close>

definition cond_mem :: "ref \<Rightarrow> int \<Rightarrow> expr py" where
  "cond_mem self i =
     py_bind (get_blade self) (\<lambda>b.
     py_bind (get_class (blade_type b)) (\<lambda>k.
     cond self i (mem k)))"

text \<open>
  \<^verbatim>\<open>Blade.get_constraints(self)\<close>. The CPU sum receives its sequence unpacked, the memory
  sum receives it as one list.
\<close>

definition Blade_get_constraints :: "ref \<Rightarrow> expr py" where
  "Blade_get_constraints self =
     py_bind (get_blade self) (\<lambda>b.
     py_bind (get_class (blade_type b)) (\<lambda>k.
     py_bind (py_comprehension (cond_cpu self) (py_range (num_tasks k))) (\<lambda>cs.
     py_bind (py_comprehension (cond_mem self) (py_range (num_tasks k))) (\<lambda>ms.
     py_return (sa_all
       [LeE (sa_sum_args cs) (ConstE (num_cpu b)),
        LeE (sa_sum_list ms) (ConstE (total_mem b))])))))"

text \<open>
  \<^verbatim>\<open>Blade.get_global_constraints(cls)\<close>, a class method: it receives the class object, no
  instance.
\<close>

definition Blade_get_global_constraints :: "ref \<Rightarrow> expr py" where
  "Blade_get_global_constraints c =
     py_bind (get_class c) (\<lambda>k.
     py_bind (py_comprehension
        (\<lambda>i. py_bind (py_index (cpu k) i) (\<lambda>v. py_return (GeE (VarE v) (ConstE (PyInt 0)))))
        (py_range (num_tasks k))) (\<lambda>cs.
     py_bind (py_comprehension
        (\<lambda>i. py_bind (py_index (mem k) i) (\<lambda>v. py_return (GeE (VarE v) (ConstE (PyInt 0)))))
        (py_range (num_tasks k))) (\<lambda>ms.
     py_return (sa_all (cs @ ms)))))"

subsection \<open>The class \<^verbatim>\<open>Task\<close>\<close>

text \<open>\<^verbatim>\<open>Task(identifier, cpu_cost, mem_cost)\<close>.\<close>

definition Task_init :: "int \<Rightarrow> pyval \<Rightarrow> pyval \<Rightarrow> ref py" where
  "Task_init identifier cpu_cost mem_cost =
     new_task \<lparr>tid = identifier, tcpu = cpu_cost, tmem = mem_cost\<rparr>"

text \<open>\<^verbatim>\<open>_assign_blade(self, blade)\<close>: \<^verbatim>\<open>sa.all(blade.running[self.id] == True)\<close>.\<close>

definition assign_blade :: "ref \<Rightarrow> ref \<Rightarrow> expr py" where
  "assign_blade self bl =
     py_bind (get_blade bl) (\<lambda>b.
     py_bind (get_task self) (\<lambda>t.
     py_bind (py_index (running b) (tid t)) (\<lambda>r.
     py_return (sa_all [EqE (VarE r) (ConstE (PyBool True))]))))"

text \<open>\<^verbatim>\<open>_assign_blades(self, blades)\<close>: \<^verbatim>\<open>sa.any\<close> over the candidates.\<close>

definition assign_blades :: "ref \<Rightarrow> ref list \<Rightarrow> expr py" where
  "assign_blades self bls =
     py_bind (py_comprehension (assign_blade self) bls) (\<lambda>cs.
     py_return (sa_any cs))"

text \<open>
  \<^verbatim>\<open>Task.get_constraints(self, blades)\<close>. \<^verbatim>\<open>Blade = type(blades[0])\<close> comes first; then
  the three arguments of \<^verbatim>\<open>sa.all\<close> are evaluated from left to right.
\<close>

definition Task_get_constraints :: "ref \<Rightarrow> ref list \<Rightarrow> expr py" where
  "Task_get_constraints self bls =
     py_bind (py_index bls 0) (\<lambda>b0.
     py_bind (get_blade b0) (\<lambda>b.
     py_bind (get_class (blade_type b)) (\<lambda>k.
     py_bind (get_task self) (\<lambda>t.
     py_bind (py_index (cpu k) (tid t)) (\<lambda>cv.
     py_bind (py_index (mem k) (tid t)) (\<lambda>mv.
     py_bind (assign_blades self bls) (\<lambda>pl.
     py_return (sa_all
       [EqE (VarE cv) (ConstE (tcpu t)),
        EqE (VarE mv) (ConstE (tmem t)),
        pl]))))))))"

subsection \<open>\<^verbatim>\<open>main\<close>\<close>

text \<open>
  Modelled from the spec: the values an assignment gives, in the \<^verbatim>\<open>smartalloc\<close> package,
  which is not among the sources: a truth value for a boolean variable, a number for a
  real or integer one.
\<close>

datatype val = VBool bool | VNum real

text \<open>
  Modelled from the spec: the assignment that \<^verbatim>\<open>sa.allocate\<close> returns, an object of the
  \<^verbatim>\<open>smartalloc\<close> package, which is not among the sources. Following the spec it is a
  mapping from each boolean, real and integer variable to its chosen value.
\<close>

record assignment =
  bool_val :: "nat \<Rightarrow> bool"
  real_val :: "nat \<Rightarrow> real"
  int_val :: "nat \<Rightarrow> int"

text \<open>
  Modelled from the spec: the lookup \<^verbatim>\<open>alloc[v]\<close> in the assignment, defined in the
  \<^verbatim>\<open>smartalloc\<close> package, which is not among the sources: the value chosen for \<open>v\<close>.
\<close>

fun alloc_get :: "assignment \<Rightarrow> var \<Rightarrow> val" where
  "alloc_get a (BoolVar k) = VBool (bool_val a k)"
| "alloc_get a (RealVar k) = VNum (real_val a k)"
| "alloc_get a (IntVar k) = VNum (of_int (int_val a k))"

text \<open>Python's test of a value in the condition of a comprehension.\<close>

fun truthy :: "val \<Rightarrow> bool" where
  "truthy (VBool b) = b"
| "truthy (VNum x) = (x \<noteq> 0)"

text \<open>
  The result interpreter of \<^verbatim>\<open>main\<close>, for one blade: the comprehension
  \<^verbatim>\<open>[i for i in range(num_tasks) if alloc[blade.running[i]]]\<close>.
\<close>

definition worked_on :: "assignment \<Rightarrow> int \<Rightarrow> ref \<Rightarrow> int list py" where
  "worked_on alloc n bl =
     py_comprehension_if
       (\<lambda>i. py_bind (get_blade bl) (\<lambda>b.
             py_bind (py_index (running b) i) (\<lambda>r.
             py_return (truthy (alloc_get alloc r)))))
       (py_range n)"

text \<open>The outer comprehension, \<^verbatim>\<open>for blade in blades\<close>.\<close>

definition worked_per_blade :: "assignment \<Rightarrow> int \<Rightarrow> ref list \<Rightarrow> int list list py" where
  "worked_per_blade alloc n bls = py_comprehension (worked_on alloc n) bls"

text \<open>
  \<^verbatim>\<open>main()\<close>. The solver entry point \<^verbatim>\<open>sa.allocate\<close> is defined in the \<^verbatim>\<open>smartalloc\<close>
  package, which is not among the sources; it is the parameter \<open>allocate\<close>, which receives
  the two collections of constraints and returns an assignment and the count of tasks
  worked, or fails. What \<^verbatim>\<open>main\<close> prints is what the model returns: the count and the
  task ids per blade.
\<close>

definition main ::
  "(expr list \<Rightarrow> expr list \<Rightarrow> py_error + assignment \<times> int) \<Rightarrow> (int \<times> int list list) py" where
  "main allocate =
     (let num_blades = 4;
          num_cpus_per_blade = PyInt 8;
          total_mem_per_blade = PyInt 128;
          task_cpu = concat (replicate 4 [PyFloat (4 / 10), PyInt 2, PyInt 3, PyInt 5, PyInt 7]);
          task_mem = concat (replicate 4 [PyInt 1, PyInt 12, PyInt 48, PyInt 64, PyInt 96]);
          num_tasks = int (length task_cpu)
      in
      py_bind (py_assert (length task_cpu = length task_mem)) (\<lambda>_.
      py_bind (py_comprehension
         (\<lambda>i. py_bind (py_index task_cpu i) (\<lambda>c.
               py_bind (py_index task_mem i) (\<lambda>m.
               Task_init i c m)))
         (py_range num_tasks)) (\<lambda>tasks.
      py_bind (define_blade num_tasks) (\<lambda>Blade.
      py_bind (py_comprehension
         (\<lambda>_. Blade_init Blade num_cpus_per_blade total_mem_per_blade)
         (py_range num_blades)) (\<lambda>blades.
      py_bind (Blade_get_global_constraints Blade) (\<lambda>g.
      py_bind (py_comprehension Blade_get_constraints blades) (\<lambda>bs.
      py_bind (py_comprehension (\<lambda>t. Task_get_constraints t blades) tasks) (\<lambda>task_constraints.
      py_bind (\<lambda>h. (allocate (g # bs) task_constraints, h)) (\<lambda>(alloc, worked).
      py_bind (worked_per_blade alloc num_tasks blades) (\<lambda>per_blade.
      py_return (worked, per_blade)))))))))))"

section \<open>What a constraint means\<close>

text \<open>
  Modelled from the spec: how the solver of the \<^verbatim>\<open>smartalloc\<close> package, which is not among
  the sources, reads a Python value used as an operand: a number, or a truth value.
\<close>

fun val_of :: "pyval \<Rightarrow> val" where
  "val_of (PyInt n) = VNum (of_int n)"
| "val_of (PyFloat x) = VNum x"
| "val_of (PyBool b) = VBool b"

text \<open>
  Modelled from the spec: the value of the aggregate sum of the \<^verbatim>\<open>smartalloc\<close> package,
  which is not among the sources: the sum of a sequence of numbers. A sum with an operand
  that is not a number has no value.
\<close>

fun sum_vals :: "val option list \<Rightarrow> val option" where
  "sum_vals [] = Some (VNum 0)"
| "sum_vals (Some (VNum x) # vs) =
     (case sum_vals vs of Some (VNum s) \<Rightarrow> Some (VNum (x + s)) | _ \<Rightarrow> None)"
| "sum_vals (_ # vs) = None"

text \<open>
  Modelled from the spec: the value of the n-ary conjunction of the \<^verbatim>\<open>smartalloc\<close> package,
  which is not among the sources: true when every part is true; the empty conjunction is
  true.
\<close>

fun all_vals :: "val option list \<Rightarrow> val option" where
  "all_vals [] = Some (VBool True)"
| "all_vals (Some (VBool b) # vs) =
     (case all_vals vs of Some (VBool c) \<Rightarrow> Some (VBool (b \<and> c)) | _ \<Rightarrow> None)"
| "all_vals (_ # vs) = None"

text \<open>
  Modelled from the spec: the value of the n-ary disjunction of the \<^verbatim>\<open>smartalloc\<close> package,
  which is not among the sources: true when some part is true; the empty disjunction is
  false.
\<close>

fun any_vals :: "val option list \<Rightarrow> val option" where
  "any_vals [] = Some (VBool False)"
| "any_vals (Some (VBool b) # vs) =
     (case any_vals vs of Some (VBool c) \<Rightarrow> Some (VBool (b \<or> c)) | _ \<Rightarrow> None)"
| "any_vals (_ # vs) = None"

text \<open>
  Modelled from the spec: the value of less-or-equal in the \<^verbatim>\<open>smartalloc\<close> package, which
  is not among the sources: the order of two numbers.
\<close>

fun le_vals :: "val option \<Rightarrow> val option \<Rightarrow> val option" where
  "le_vals (Some (VNum x)) (Some (VNum y)) = Some (VBool (x \<le> y))"
| "le_vals _ _ = None"

text \<open>
  Modelled from the spec: the value of equality in the \<^verbatim>\<open>smartalloc\<close> package, which is not
  among the sources: two numbers are equal, or two truth values are.
\<close>

fun eq_vals :: "val option \<Rightarrow> val option \<Rightarrow> val option" where
  "eq_vals (Some (VNum x)) (Some (VNum y)) = Some (VBool (x = y))"
| "eq_vals (Some (VBool x)) (Some (VBool y)) = Some (VBool (x = y))"
| "eq_vals _ _ = None"

text \<open>
  Modelled from the spec: the value of a constraint under an assignment, which the solver
  of the \<^verbatim>\<open>smartalloc\<close> package decides; the package is not among the sources. Following
  the spec, an assignment gives every variable a value, the conditional select takes the
  value of the branch its condition selects, and the other combinators are as above. An
  expression used at the wrong kind has no value.
\<close>

fun eval :: "assignment \<Rightarrow> expr \<Rightarrow> val option" where
  "eval a (VarE v) = Some (alloc_get a v)"
| "eval a (ConstE c) = Some (val_of c)"
| "eval a (IfE c t e) =
     (case eval a c of
        Some (VBool b) \<Rightarrow> (if b then eval a t else eval a e)
      | _ \<Rightarrow> None)"
| "eval a (SumE es) = sum_vals (map (eval a) es)"
| "eval a (LeE x y) = le_vals (eval a x) (eval a y)"
| "eval a (GeE x y) = le_vals (eval a y) (eval a x)"
| "eval a (EqE x y) = eq_vals (eval a x) (eval a y)"
| "eval a (AllE es) = all_vals (map (eval a) es)"
| "eval a (AnyE es) = any_vals (map (eval a) es)"

text \<open>
  Modelled from the spec: an assignment satisfies a constraint of the \<^verbatim>\<open>smartalloc\<close>
  package, which is not among the sources, when the constraint has the value true.
\<close>

definition holds :: "assignment \<Rightarrow> expr \<Rightarrow> bool" where
  "holds a e = (eval a e = Some (VBool True))"

text \<open>A builder returned a constraint and the assignment satisfies it.\<close>

definition satisfies :: "assignment \<Rightarrow> (py_error + expr) \<times> heap \<Rightarrow> bool" where
  "satisfies a r = (case fst r of Inr e \<Rightarrow> holds a e | Inl x \<Rightarrow> False)"

text \<open>The variables a constraint mentions.\<close>

fun vars_of :: "expr \<Rightarrow> var set" where
  "vars_of (VarE v) = {v}"
| "vars_of (ConstE c) = {}"
| "vars_of (IfE c t e) = vars_of c \<union> vars_of t \<union> vars_of e"
| "vars_of (SumE es) = (\<Union>e \<in> set es. vars_of e)"
| "vars_of (LeE x y) = vars_of x \<union> vars_of y"
| "vars_of (GeE x y) = vars_of x \<union> vars_of y"
| "vars_of (EqE x y) = vars_of x \<union> vars_of y"
| "vars_of (AllE es) = (\<Union>e \<in> set es. vars_of e)"
| "vars_of (AnyE es) = (\<Union>e \<in> set es. vars_of e)"

section \<open>Well-formed heaps\<close>

text \<open>An operation that leaves the heap as it found it, whatever it returns or raises.\<close>

definition pure_py :: "'a py \<Rightarrow> bool" where
  "pure_py m \<longleftrightarrow> (\<forall>h. snd (m h) = h)"

fun var_id :: "var \<Rightarrow> nat" where
  "var_id (RealVar k) = k"
| "var_id (IntVar k) = k"
| "var_id (BoolVar k) = k"

fun is_real_var :: "var \<Rightarrow> bool" where
  "is_real_var (RealVar k) = True"
| "is_real_var _ = False"

fun is_int_var :: "var \<Rightarrow> bool" where
  "is_int_var (IntVar k) = True"
| "is_int_var _ = False"

fun is_bool_var :: "var \<Rightarrow> bool" where
  "is_bool_var (BoolVar k) = True"
| "is_bool_var _ = False"

text \<open>
  A class object as \<^verbatim>\<open>define_blade\<close> leaves it: one real and one integer variable per
  slot.
\<close>

definition wf_class :: "blade_class \<Rightarrow> bool" where
  "wf_class k \<longleftrightarrow>
     length (cpu k) = nat (num_tasks k) \<and> length (mem k) = nat (num_tasks k) \<and>
     list_all is_real_var (cpu k) \<and> list_all is_int_var (mem k)"

text \<open>
  An instance as \<^verbatim>\<open>__init__\<close> leaves it: its class exists, and it has one boolean
  variable per slot of its class.
\<close>

definition wf_blade :: "blade_class list \<Rightarrow> blade \<Rightarrow> bool" where
  "wf_blade ks b \<longleftrightarrow>
     blade_type b < length ks \<and>
     length (running b) = nat (num_tasks (ks ! blade_type b)) \<and>
     list_all is_bool_var (running b)"

definition class_vars :: "heap \<Rightarrow> var list" where
  "class_vars h = concat (map (\<lambda>k. cpu k @ mem k) (classes h))"

text \<open>
  The invariant of the heap: every class and blade is as its constructor left it, no cost
  variable belongs to two slots or two classes, and every cost variable was created
  before now.
\<close>

definition wf_heap :: "heap \<Rightarrow> bool" where
  "wf_heap h \<longleftrightarrow>
     list_all wf_class (classes h) \<and>
     list_all (wf_blade (classes h)) (blades h) \<and>
     distinct (map var_id (class_vars h)) \<and>
     list_all (\<lambda>v. var_id v < fresh h) (class_vars h)"

text \<open>
  The heaps the program can build: it starts with no object and creates objects with
  \<^verbatim>\<open>define_blade\<close>, \<^verbatim>\<open>Blade(...)\<close> and \<^verbatim>\<open>Task(...)\<close>; nothing else changes the heap.
\<close>

inductive reachable :: "heap \<Rightarrow> bool" where
  start: "reachable heap0"
| pool: "reachable h \<Longrightarrow> reachable (snd (define_blade n h))"
| instance_of: "reachable h \<Longrightarrow> reachable (snd (Blade_init c x y h))"
| job: "reachable h \<Longrightarrow> reachable (snd (Task_init i c m h))"

text \<open>Blade \<open>b\<close> exists and its class has slot \<open>i\<close>.\<close>

definition has_slot :: "heap \<Rightarrow> int \<Rightarrow> ref \<Rightarrow> bool" where
  "has_slot h i b \<longleftrightarrow>
     b < length (blades h) \<and> i < num_tasks (classes h ! blade_type (blades h ! b))"

section \<open>The constraints as the specification words them\<close>

text \<open>
  The conditional cost of a slot: if \<open>running[i]\<close> is true, the slot contributes
  \<open>cost[i]\<close>; otherwise it contributes zero.
\<close>

definition conditional_cost :: "var \<Rightarrow> var \<Rightarrow> expr" where
  "conditional_cost r c = IfE (VarE r) (VarE c) (ConstE (PyInt 0))"

text \<open>
  The constraint of a blade: the conjunction of (sum over all slots of the conditional CPU
  contribution) \<open>\<le>\<close> CPU capacity, and (sum over all slots of the conditional memory
  contribution) \<open>\<le>\<close> memory capacity.
\<close>

definition capacity_constraint :: "blade_class \<Rightarrow> blade \<Rightarrow> expr" where
  "capacity_constraint k b =
     AllE
       [LeE (SumE (map (\<lambda>i. conditional_cost (running b ! i) (cpu k ! i)) [0..<nat (num_tasks k)]))
            (ConstE (num_cpu b)),
        LeE (SumE (map (\<lambda>i. conditional_cost (running b ! i) (mem k ! i)) [0..<nat (num_tasks k)]))
            (ConstE (total_mem b))]"

text \<open>"\<open>running[i]\<close> is true on that blade", as the program writes it.\<close>

definition placed_on :: "blade \<Rightarrow> int \<Rightarrow> expr" where
  "placed_on b i = AllE [EqE (VarE (running b ! nat i)) (ConstE (PyBool True))]"

text \<open>
  The constraint of a task: the conjunction of the equalities \<open>cpu_cost[i] == c\<close> and
  \<open>mem_cost[i] == m\<close> and of the placement disjunction across every candidate blade.
\<close>

definition assignment_constraint :: "blade_class \<Rightarrow> task \<Rightarrow> blade list \<Rightarrow> expr" where
  "assignment_constraint k t bs =
     AllE
       [EqE (VarE (cpu k ! nat (tid t))) (ConstE (tcpu t)),
        EqE (VarE (mem k ! nat (tid t))) (ConstE (tmem t)),
        AnyE (map (\<lambda>b. placed_on b (tid t)) bs)]"

text \<open>The pool-wide constraint: every \<open>cpu_cost[i]\<close> and every \<open>mem_cost[i]\<close> is non-negative.\<close>

definition non_negative :: "var \<Rightarrow> expr" where
  "non_negative v = GeE (VarE v) (ConstE (PyInt 0))"

definition global_constraint :: "blade_class \<Rightarrow> expr" where
  "global_constraint k = AllE (map non_negative (cpu k) @ map non_negative (mem k))"

text \<open>Task slot \<open>i\<close> runs on blade \<open>b\<close> under the assignment.\<close>

definition placed :: "assignment \<Rightarrow> blade \<Rightarrow> int \<Rightarrow> bool" where
  "placed a b i = truthy (alloc_get a (running b ! nat i))"

text \<open>
  Modelled from the spec: the count of tasks worked that \<^verbatim>\<open>sa.allocate\<close> reports with
  its assignment; \<^verbatim>\<open>sa.allocate\<close> is defined in the \<^verbatim>\<open>smartalloc\<close> package, which is not
  among the sources. Following the spec, the reported count is the number of distinct task
  ids with at least one true \<open>running[i]\<close> across all blades.
\<close>

definition worked_count :: "assignment \<Rightarrow> blade list \<Rightarrow> int \<Rightarrow> int" where
  "worked_count a bs n = int (length (filter (\<lambda>i. list_ex (\<lambda>b. placed a b i) bs) (py_range n)))"

text \<open>The number an assignment gives a cost variable.\<close>

fun num_val :: "val \<Rightarrow> real" where
  "num_val (VNum x) = x"
| "num_val (VBool b) = 0"

text \<open>What a slot contributes to the load of a blade, and the load: the sum over all slots.\<close>

definition slot_load :: "assignment \<Rightarrow> var \<Rightarrow> var \<Rightarrow> real" where
  "slot_load a r c = (if truthy (alloc_get a r) then num_val (alloc_get a c) else 0)"

definition blade_load :: "assignment \<Rightarrow> var list \<Rightarrow> var list \<Rightarrow> real" where
  "blade_load a rs cs = sum_list (map (\<lambda>i. slot_load a (rs ! i) (cs ! i)) [0..<length rs])"

section \<open>An example configuration\<close>

text \<open>
  A small configuration to run the program on: three tasks, a pool for two tasks and a
  pool for three, two blades of the first pool and one of the second, created in the order
  in which \<^verbatim>\<open>main\<close> creates its objects.
\<close>

definition example_heap :: heap where
  "example_heap = snd
     (py_bind (Task_init 0 (PyInt 2) (PyInt 12)) (\<lambda>t0.
      py_bind (Task_init 1 (PyInt 3) (PyInt 48)) (\<lambda>t1.
      py_bind (Task_init 2 (PyFloat (4 / 10)) (PyInt 1)) (\<lambda>t2.
      py_bind (define_blade 2) (\<lambda>c0.
      py_bind (define_blade 3) (\<lambda>c1.
      py_bind (Blade_init c0 (PyInt 8) (PyInt 128)) (\<lambda>b0.
      py_bind (Blade_init c0 (PyInt 8) (PyInt 128)) (\<lambda>b1.
      Blade_init c1 (PyInt 16) (PyInt 256)))))))) heap0)"

text \<open>
  An assignment for it: task 0 runs on blade 0 and on blade 1, task 1 on blade 1, task 2 on
  blade 2, and the cost variables of their slots take the costs of the tasks.
\<close>

definition example_alloc :: assignment where
  "example_alloc =
     \<lparr>bool_val = (\<lambda>k. k = 10 \<or> k = 12 \<or> k = 13 \<or> k = 16),
      real_val = (\<lambda>k. if k = 0 then 2 else if k = 1 then 3 else if k = 6 then 4 / 10 else 0),
      int_val = (\<lambda>k. if k = 2 then 12 else if k = 3 then 48 else if k = 9 then 1 else 0)\<rparr>"

section \<open>Running the program\<close>

subsection \<open>Sequencing, indexing and comprehensions\<close>

lemma py_bind_Inr: "m h = (Inr x, h') \<Longrightarrow> py_bind m f h = f x h'"
  by (simp add: py_bind_def)

lemma py_return_run: "py_return x h = (Inr x, h)"
  by (simp add: py_return_def)

lemma get_class_ok: "r < length (classes h) \<Longrightarrow> get_class r h = (Inr (classes h ! r), h)"
  by (simp add: get_class_def)

lemma py_index_ok:
  "0 \<le> i \<Longrightarrow> i < int (length xs) \<Longrightarrow> py_index xs i h = (Inr (xs ! nat i), h)"
  by (simp add: py_index_def py_return_def)

lemma py_index_high:
  "int (length xs) \<le> i \<Longrightarrow> py_index xs i h = (Inl IndexError, h)"
  by (simp add: py_index_def py_raise_def)

lemma py_index_Nil: "py_index [] i h = (Inl IndexError, h)"
  by (auto simp: py_index_def py_raise_def)

lemma py_comprehension_ok:
  "(\<And>x. x \<in> set xs \<Longrightarrow> f x h = (Inr (g x), h)) \<Longrightarrow>
   py_comprehension f xs h = (Inr (map g xs), h)"
  by (induction xs) (simp_all add: py_return_def py_bind_def)

lemma py_comprehension_if_ok:
  "(\<And>x. x \<in> set xs \<Longrightarrow> p x h = (Inr (q x), h)) \<Longrightarrow>
   py_comprehension_if p xs h = (Inr (filter q xs), h)"
  by (induction xs) (simp_all add: py_return_def py_bind_def)

lemma set_py_range: "set (py_range n) = {i. 0 \<le> i \<and> i < n}"
  apply (auto simp: py_range_def)
  subgoal for x by (rule image_eqI[where x="nat x"]) auto
  done

lemma length_py_range: "length (py_range n) = nat n"
  by (simp add: py_range_def)

subsection \<open>Operations that leave the heap alone\<close>

lemma pure_return: "pure_py (py_return x)"
  by (simp add: pure_py_def py_return_def)

lemma pure_raise: "pure_py (py_raise e)"
  by (simp add: pure_py_def py_raise_def)

lemma pure_bind: "pure_py m \<Longrightarrow> (\<And>x. pure_py (f x)) \<Longrightarrow> pure_py (py_bind m f)"
  unfolding pure_py_def py_bind_def
  by (auto split: prod.splits sum.splits) (metis snd_conv)+

lemma pure_comprehension: "(\<And>x. pure_py (f x)) \<Longrightarrow> pure_py (py_comprehension f xs)"
  by (induction xs) (auto intro!: pure_bind pure_return)

lemma pure_index: "pure_py (py_index xs i)"
  by (simp add: py_index_def pure_return pure_raise)

lemma pure_get_class: "pure_py (get_class r)"
  by (simp add: pure_py_def get_class_def)

lemma pure_get_blade: "pure_py (get_blade r)"
  by (simp add: pure_py_def get_blade_def)

lemma pure_get_task: "pure_py (get_task r)"
  by (simp add: pure_py_def get_task_def)

lemmas pure_intros = pure_bind pure_return pure_raise pure_comprehension pure_index
  pure_get_class pure_get_blade pure_get_task

lemma pure_cond: "pure_py (cond self i rsrc)"
  unfolding cond_def by (intro pure_intros)

lemma pure_cond_cpu: "pure_py (cond_cpu self i)"
  unfolding cond_cpu_def by (intro pure_intros pure_cond)

lemma pure_cond_mem: "pure_py (cond_mem self i)"
  unfolding cond_mem_def by (intro pure_intros pure_cond)

lemma pure_Blade_get_constraints: "pure_py (Blade_get_constraints self)"
  unfolding Blade_get_constraints_def by (intro pure_intros pure_cond_cpu pure_cond_mem)

lemma pure_Blade_get_global_constraints: "pure_py (Blade_get_global_constraints c)"
  unfolding Blade_get_global_constraints_def by (intro pure_intros)

lemma pure_assign_blade: "pure_py (assign_blade self bl)"
  unfolding assign_blade_def by (intro pure_intros)

lemma pure_assign_blades: "pure_py (assign_blades self bls)"
  unfolding assign_blades_def by (intro pure_intros pure_assign_blade)

lemma pure_Task_get_constraints: "pure_py (Task_get_constraints self bls)"
  unfolding Task_get_constraints_def by (intro pure_intros pure_assign_blades)

subsection \<open>The constructors keep the heap well formed\<close>

text \<open>
  Every heap the program can build is well formed: the empty heap is, and
  \<^verbatim>\<open>define_blade\<close>, \<^verbatim>\<open>Blade(...)\<close> and \<^verbatim>\<open>Task(...)\<close> keep it so.
\<close>

lemma wf_heap0: "wf_heap heap0"
  by (simp add: wf_heap_def heap0_def class_vars_def)

lemma alloc_Real:
  "py_comprehension (\<lambda>_. sa_Real) xs h =
     (Inr (map RealVar [fresh h..<fresh h + length xs]), h\<lparr>fresh := fresh h + length xs\<rparr>)"
proof (induction xs arbitrary: h)
  case Nil
  then show ?case by (simp add: py_return_def)
next
  case (Cons x xs)
  show ?case
    by (simp add: py_bind_def py_return_def sa_Real_def Cons.IH [unfolded sa_Real_def] upt_conv_Cons del: upt_Suc)
qed

lemma alloc_Int:
  "py_comprehension (\<lambda>_. sa_Int) xs h =
     (Inr (map IntVar [fresh h..<fresh h + length xs]), h\<lparr>fresh := fresh h + length xs\<rparr>)"
proof (induction xs arbitrary: h)
  case Nil
  then show ?case by (simp add: py_return_def)
next
  case (Cons x xs)
  show ?case
    by (simp add: py_bind_def py_return_def sa_Int_def Cons.IH [unfolded sa_Int_def] upt_conv_Cons del: upt_Suc)
qed

lemma alloc_Bool:
  "py_comprehension (\<lambda>_. sa_Bool) xs h =
     (Inr (map BoolVar [fresh h..<fresh h + length xs]), h\<lparr>fresh := fresh h + length xs\<rparr>)"
proof (induction xs arbitrary: h)
  case Nil
  then show ?case by (simp add: py_return_def)
next
  case (Cons x xs)
  show ?case
    by (simp add: py_bind_def py_return_def sa_Bool_def Cons.IH [unfolded sa_Bool_def] upt_conv_Cons del: upt_Suc)
qed

lemma define_blade_run:
  "define_blade n h =
     (Inr (length (classes h)),
      h\<lparr>fresh := fresh h + nat n + nat n,
        classes := classes h @
          [\<lparr>num_tasks = n,
            cpu = map RealVar [fresh h..<fresh h + nat n],
            mem = map IntVar [fresh h + nat n..<fresh h + nat n + nat n]\<rparr>]\<rparr>)"
  by (simp add: define_blade_def py_bind_def alloc_Real alloc_Int new_class_def length_py_range)

lemma Blade_init_run:
  "c < length (classes h) \<Longrightarrow>
   Blade_init c x y h =
     (Inr (length (blades h)),
      h\<lparr>fresh := fresh h + nat (num_tasks (classes h ! c)),
        blades := blades h @
          [\<lparr>blade_type = c, num_cpu = x, total_mem = y,
            running = map BoolVar [fresh h..<fresh h + nat (num_tasks (classes h ! c))]\<rparr>]\<rparr>)"
  by (simp add: Blade_init_def py_bind_def get_class_def alloc_Bool new_blade_def length_py_range)

lemma Blade_init_dangling:
  "\<not> c < length (classes h) \<Longrightarrow> Blade_init c x y h = (Inl DanglingRef, h)"
  by (simp add: Blade_init_def py_bind_def get_class_def)

lemma Task_init_run:
  "Task_init i c m h =
     (Inr (length (tasks h)), h\<lparr>tasks := tasks h @ [\<lparr>tid = i, tcpu = c, tmem = m\<rparr>]\<rparr>)"
  by (simp add: Task_init_def new_task_def)

lemma all_real_vars: "list_all is_real_var (map RealVar xs)"
  by (induction xs) auto
lemma all_int_vars: "list_all is_int_var (map IntVar xs)"
  by (induction xs) auto
lemma all_bool_vars: "list_all is_bool_var (map BoolVar xs)"
  by (induction xs) auto

lemma map_var_id_Real: "map var_id (map RealVar xs) = xs"
  by (induction xs) auto
lemma map_var_id_Int: "map var_id (map IntVar xs) = xs"
  by (induction xs) auto
lemma var_id_comp [simp]:
  "var_id \<circ> RealVar = (\<lambda>x. x)" "var_id \<circ> IntVar = (\<lambda>x. x)" "var_id \<circ> BoolVar = (\<lambda>x. x)"
  by (auto simp: fun_eq_iff)

lemma wf_blade_append: "wf_blade ks b \<Longrightarrow> wf_blade (ks @ ks') b"
  by (auto simp: wf_blade_def nth_append)

lemma wf_define_blade:
  assumes "wf_heap h"
  shows "wf_heap (snd (define_blade n h))"
proof -
  let ?f = "fresh h" and ?m = "nat n"
  let ?new = "map RealVar [?f..<?f + ?m] @ map IntVar [?f + ?m..<?f + ?m + ?m]"
  let ?h' = "snd (define_blade n h)"
  have cv: "class_vars ?h' = class_vars h @ ?new"
    by (simp add: define_blade_run class_vars_def)
  have old: "var_id v < ?f" if "v \<in> set (class_vars h)" for v
    using assms that by (simp add: wf_heap_def list_all_iff)
  have new: "?f \<le> var_id v \<and> var_id v < ?f + ?m + ?m" if "v \<in> set ?new" for v
    using that by auto
  have disj: "set (map var_id (class_vars h)) \<inter> set (map var_id ?new) = {}"
  proof -
    have "x < ?f" if "x \<in> set (map var_id (class_vars h))" for x
      using that old by auto
    moreover have "?f \<le> x" if "x \<in> set (map var_id ?new)" for x
      using that by auto
    ultimately show ?thesis by fastforce
  qed
  have dnew: "distinct (map var_id ?new)"
    by (auto simp: map_var_id_Real map_var_id_Int)
  have dold: "distinct (map var_id (class_vars h))"
    using assms by (simp add: wf_heap_def)
  have d: "distinct (map var_id (class_vars ?h'))"
    unfolding cv map_append[of var_id "class_vars h" ?new] distinct_append
    using dold dnew disj by blast
  have b: "list_all (\<lambda>v. var_id v < fresh ?h') (class_vars ?h')"
    unfolding cv list_all_iff
  proof
    fix v assume "v \<in> set (class_vars h @ ?new)"
    then consider "v \<in> set (class_vars h)" | "v \<in> set ?new" by auto
    then show "var_id v < fresh ?h'"
    proof cases
      case 1
      from old[OF 1] show ?thesis by (simp add: define_blade_run)
    next
      case 2
      from new[OF 2] show ?thesis by (simp add: define_blade_run)
    qed
  qed
  have c: "list_all wf_class (classes ?h')"
    using assms
    by (simp add: define_blade_run wf_heap_def wf_class_def
        all_real_vars all_int_vars)
  have bl: "list_all (wf_blade (classes ?h')) (blades ?h')"
    using assms by (auto simp: define_blade_run wf_heap_def list_all_iff wf_blade_append)
  from c bl d b show ?thesis by (simp add: wf_heap_def)
qed

lemma wf_Blade_init:
  assumes "wf_heap h"
  shows "wf_heap (snd (Blade_init c x y h))"
proof (cases "c < length (classes h)")
  case True
  let ?h' = "snd (Blade_init c x y h)"
  have cv: "class_vars ?h' = class_vars h" "classes ?h' = classes h"
    using True by (simp_all add: Blade_init_run class_vars_def)
  have f: "fresh h \<le> fresh ?h'"
    using True by (simp add: Blade_init_run)
  have b: "list_all (\<lambda>v. var_id v < fresh ?h') (class_vars ?h')"
    using assms f unfolding cv by (auto simp: wf_heap_def list_all_iff)
  have bl: "list_all (wf_blade (classes ?h')) (blades ?h')"
    using assms True unfolding cv
    by (simp add: Blade_init_run wf_heap_def wf_blade_def all_bool_vars)
  from assms b bl show ?thesis by (simp add: wf_heap_def cv)
next
  case False
  with assms show ?thesis by (simp add: Blade_init_dangling)
qed

lemma wf_Task_init:
  assumes "wf_heap h"
  shows "wf_heap (snd (Task_init i c m h))"
  using assms by (simp add: Task_init_run wf_heap_def class_vars_def)

lemma reachable_wf: "reachable h \<Longrightarrow> wf_heap h"
  by (induction rule: reachable.induct)
    (simp_all add: wf_heap0 wf_define_blade wf_Blade_init wf_Task_init)

subsection \<open>What the builders return on a well-formed heap\<close>

lemma wf_heap_class: "wf_heap h \<Longrightarrow> c < length (classes h) \<Longrightarrow> wf_class (classes h ! c)"
  by (simp add: wf_heap_def list_all_length)

lemma wf_heap_blade: "wf_heap h \<Longrightarrow> r < length (blades h) \<Longrightarrow> wf_blade (classes h) (blades h ! r)"
  by (simp add: wf_heap_def list_all_length)

lemma cond_run:
  assumes "r < length (blades h)" "0 \<le> i" "i < int (length (running (blades h ! r)))"
    "i < int (length rsrc)"
  shows "cond r i rsrc h =
    (Inr (conditional_cost (running (blades h ! r) ! nat i) (rsrc ! nat i)), h)"
  using assms
  by (simp add: cond_def py_bind_def get_blade_def py_index_ok py_return_def sa_If_def
      conditional_cost_def)

lemma map_py_range: "map (\<lambda>i. f (nat i)) (py_range n) = map f [0..<nat n]"
  by (simp add: py_range_def comp_def)

lemma Blade_get_constraints_run:
  assumes wf: "wf_heap h" and r: "r < length (blades h)"
  shows "Blade_get_constraints r h =
    (Inr (capacity_constraint (classes h ! blade_type (blades h ! r)) (blades h ! r)), h)"
proof -
  let ?b = "blades h ! r"
  let ?k = "classes h ! blade_type ?b"
  from wf_heap_blade[OF wf r] have c: "blade_type ?b < length (classes h)"
    and lr: "length (running ?b) = nat (num_tasks ?k)"
    by (simp_all add: wf_blade_def)
  from wf_heap_class[OF wf c] have lc: "length (cpu ?k) = nat (num_tasks ?k)"
    and lm: "length (mem ?k) = nat (num_tasks ?k)"
    by (simp_all add: wf_class_def)
  have cc: "cond_cpu r i h = (Inr (conditional_cost (running ?b ! nat i) (cpu ?k ! nat i)), h)"
    if "i \<in> set (py_range (num_tasks ?k))" for i
    using that r c lr lc
    by (simp add: cond_cpu_def py_bind_def get_blade_def get_class_def cond_run set_py_range)
  have cm: "cond_mem r i h = (Inr (conditional_cost (running ?b ! nat i) (mem ?k ! nat i)), h)"
    if "i \<in> set (py_range (num_tasks ?k))" for i
    using that r c lr lm
    by (simp add: cond_mem_def py_bind_def get_blade_def get_class_def cond_run set_py_range)
  have pc: "py_comprehension (cond_cpu r) (py_range (num_tasks ?k)) h =
      (Inr (map (\<lambda>i. conditional_cost (running ?b ! i) (cpu ?k ! i)) [0..<nat (num_tasks ?k)]), h)"
    unfolding map_py_range[of "\<lambda>i. conditional_cost (running ?b ! i) (cpu ?k ! i)", symmetric]
    by (rule py_comprehension_ok) (rule cc)
  have pm: "py_comprehension (cond_mem r) (py_range (num_tasks ?k)) h =
      (Inr (map (\<lambda>i. conditional_cost (running ?b ! i) (mem ?k ! i)) [0..<nat (num_tasks ?k)]), h)"
    unfolding map_py_range[of "\<lambda>i. conditional_cost (running ?b ! i) (mem ?k ! i)", symmetric]
    by (rule py_comprehension_ok) (rule cm)
  show ?thesis
    using r c
    by (simp add: Blade_get_constraints_def py_bind_def get_blade_def get_class_def pc pm
        py_return_def sa_all_def sa_sum_args_def sa_sum_list_def capacity_constraint_def)
qed

lemma py_index_hd: "bls \<noteq> [] \<Longrightarrow> py_index bls 0 h = (Inr (hd bls), h)"
  by (cases bls) (simp_all add: py_index_def py_return_def)

lemma assign_blade_run:
  assumes "wf_heap h" "t < length (tasks h)" "0 \<le> tid (tasks h ! t)"
    "has_slot h (tid (tasks h ! t)) b"
  shows "assign_blade t b h = (Inr (placed_on (blades h ! b) (tid (tasks h ! t))), h)"
proof -
  from assms(4) have b: "b < length (blades h)"
    and i: "tid (tasks h ! t) < num_tasks (classes h ! blade_type (blades h ! b))"
    by (simp_all add: has_slot_def)
  from wf_heap_blade[OF assms(1) b]
  have "length (running (blades h ! b)) = nat (num_tasks (classes h ! blade_type (blades h ! b)))"
    by (simp add: wf_blade_def)
  with i assms(3) have "tid (tasks h ! t) < int (length (running (blades h ! b)))"
    by simp
  with assms(2,3) b show ?thesis
    by (simp add: assign_blade_def py_bind_def get_blade_def get_task_def py_index_ok
        py_return_def sa_all_def placed_on_def)
qed

lemma Task_get_constraints_run:
  assumes wf: "wf_heap h" and t: "t < length (tasks h)" and ne: "bls \<noteq> []"
    and i0: "0 \<le> tid (tasks h ! t)"
    and slots: "\<forall>b \<in> set bls. has_slot h (tid (tasks h ! t)) b"
  shows "Task_get_constraints t bls h =
    (Inr (assignment_constraint (classes h ! blade_type (blades h ! hd bls)) (tasks h ! t)
            (map (\<lambda>b. blades h ! b) bls)), h)"
proof -
  let ?T = "tasks h ! t"
  let ?b = "blades h ! hd bls"
  let ?k = "classes h ! blade_type ?b"
  from ne slots have hs: "has_slot h (tid ?T) (hd bls)" by simp
  then have b: "hd bls < length (blades h)" and i: "tid ?T < num_tasks ?k"
    by (simp_all add: has_slot_def)
  from wf_heap_blade[OF wf b] have c: "blade_type ?b < length (classes h)"
    by (simp add: wf_blade_def)
  from wf_heap_class[OF wf c] i i0
  have lc: "tid ?T < int (length (cpu ?k))" and lm: "tid ?T < int (length (mem ?k))"
    by (simp_all add: wf_class_def)
  have ab: "py_comprehension (assign_blade t) bls h =
      (Inr (map (\<lambda>b. placed_on (blades h ! b) (tid ?T)) bls), h)"
    by (rule py_comprehension_ok) (use wf t i0 slots in \<open>simp add: assign_blade_run\<close>)
  show ?thesis
    using t b c i0 lc lm
    by (simp add: Task_get_constraints_def py_bind_def py_index_hd[OF ne] get_blade_def
        get_class_def get_task_def py_index_ok assign_blades_def ab py_return_def
        sa_all_def sa_any_def assignment_constraint_def comp_def)
qed

lemma Task_get_constraints_empty: "Task_get_constraints t [] h = (Inl IndexError, h)"
  by (simp add: Task_get_constraints_def py_bind_def py_index_Nil)

lemma py_index_beyond:
  assumes "length xs = nat n" "n \<le> i"
  shows "py_index xs i h = (Inl IndexError, h)"
proof (cases "n \<le> 0")
  case True
  with assms have "xs = []" by simp
  then show ?thesis by (simp add: py_index_Nil)
next
  case False
  with assms have "int (length xs) \<le> i" by simp
  then show ?thesis by (rule py_index_high)
qed

lemma Task_get_constraints_beyond:
  assumes wf: "wf_heap h" and t: "t < length (tasks h)"
    and bs: "\<forall>b \<in> set bls. b < length (blades h)"
    and big: "bls \<noteq> [] \<longrightarrow> num_tasks (classes h ! blade_type (blades h ! hd bls)) \<le> tid (tasks h ! t)"
  shows "Task_get_constraints t bls h = (Inl IndexError, h)"
proof (cases "bls = []")
  case True
  then show ?thesis by (simp add: Task_get_constraints_empty)
next
  case False
  let ?b = "blades h ! hd bls"
  let ?k = "classes h ! blade_type ?b"
  from False bs have b: "hd bls < length (blades h)" by simp
  from wf_heap_blade[OF wf b] have c: "blade_type ?b < length (classes h)"
    by (simp add: wf_blade_def)
  from wf_heap_class[OF wf c] have "length (cpu ?k) = nat (num_tasks ?k)"
    by (simp add: wf_class_def)
  from py_index_beyond[OF this] big False
  have "py_index (cpu ?k) (tid (tasks h ! t)) h = (Inl IndexError, h)" by simp
  with t b c show ?thesis
    by (simp add: Task_get_constraints_def py_bind_def py_index_hd[OF False] get_blade_def
        get_class_def get_task_def)
qed

lemma index_comprehension:
  assumes "length xs = nat n"
  shows "py_comprehension (\<lambda>i. py_bind (py_index xs i) (\<lambda>v. py_return (g v))) (py_range n) h =
    (Inr (map g xs), h)"
proof -
  have "py_comprehension (\<lambda>i. py_bind (py_index xs i) (\<lambda>v. py_return (g v))) (py_range n) h =
      (Inr (map (\<lambda>i. g (xs ! nat i)) (py_range n)), h)"
    by (rule py_comprehension_ok)
      (use assms in \<open>simp add: set_py_range py_bind_def py_index_ok py_return_def\<close>)
  moreover have "map (\<lambda>i. g (xs ! i)) [0..<length xs] = map g xs"
    by (rule nth_equalityI) simp_all
  then have "map (\<lambda>i. g (xs ! nat i)) (py_range n) = map g xs"
    using assms by (simp add: map_py_range[of "\<lambda>i. g (xs ! i)"])
  ultimately show ?thesis by simp
qed

lemma Blade_get_global_constraints_run:
  assumes wf: "wf_heap h" and c: "c < length (classes h)"
  shows "Blade_get_global_constraints c h = (Inr (global_constraint (classes h ! c)), h)"
proof -
  let ?k = "classes h ! c"
  from wf_heap_class[OF wf c] have lc: "length (cpu ?k) = nat (num_tasks ?k)"
    and lm: "length (mem ?k) = nat (num_tasks ?k)"
    by (simp_all add: wf_class_def)
  have 1: "py_bind (get_class c) f h = f ?k h" for f :: "blade_class \<Rightarrow> expr py"
    by (simp add: py_bind_def get_class_ok[OF c])
  have 2: "py_bind (py_comprehension
        (\<lambda>i. py_bind (py_index (cpu ?k) i) (\<lambda>v. py_return (GeE (VarE v) (ConstE (PyInt 0)))))
        (py_range (num_tasks ?k))) f h = f (map non_negative (cpu ?k)) h"
    for f :: "expr list \<Rightarrow> expr py"
    using index_comprehension[OF lc, of non_negative h]
    by (simp add: py_bind_def non_negative_def)
  have 3: "py_bind (py_comprehension
        (\<lambda>i. py_bind (py_index (mem ?k) i) (\<lambda>v. py_return (GeE (VarE v) (ConstE (PyInt 0)))))
        (py_range (num_tasks ?k))) f h = f (map non_negative (mem ?k)) h"
    for f :: "expr list \<Rightarrow> expr py"
    using index_comprehension[OF lm, of non_negative h]
    by (simp add: py_bind_def non_negative_def)
  show ?thesis
    unfolding Blade_get_global_constraints_def
    by (simp add: 1 2 3 py_return_run sa_all_def global_constraint_def)
qed

lemma worked_on_run:
  assumes wf: "wf_heap h" and b: "b < length (blades h)"
    and n: "n \<le> num_tasks (classes h ! blade_type (blades h ! b))"
  shows "worked_on a n b h = (Inr (filter (placed a (blades h ! b)) (py_range n)), h)"
proof -
  from wf_heap_blade[OF wf b]
  have "length (running (blades h ! b)) = nat (num_tasks (classes h ! blade_type (blades h ! b)))"
    by (simp add: wf_blade_def)
  with n have "i < int (length (running (blades h ! b)))" if "i \<in> set (py_range n)" for i
    using that by (simp add: set_py_range)
  then show ?thesis
    unfolding worked_on_def
    by (intro py_comprehension_if_ok)
      (use b in \<open>simp add: py_bind_def get_blade_def py_index_ok py_return_def placed_def set_py_range\<close>)
qed

lemma worked_per_blade_run:
  assumes wf: "wf_heap h"
    and bs: "\<forall>b \<in> set bls. b < length (blades h) \<and> n \<le> num_tasks (classes h ! blade_type (blades h ! b))"
  shows "worked_per_blade a n bls h =
    (Inr (map (\<lambda>b. filter (placed a (blades h ! b)) (py_range n)) bls), h)"
  unfolding worked_per_blade_def
  by (rule py_comprehension_ok) (use wf bs in \<open>simp add: worked_on_run\<close>)

lemma sorted_py_range: "sorted_wrt (<) (py_range n)"
  by (simp add: py_range_def sorted_wrt_map sorted_wrt_iff_nth_less)

subsection \<open>When an assignment satisfies the constraints\<close>

lemma eval_conditional_cost:
  "is_bool_var r \<Longrightarrow> is_real_var c \<or> is_int_var c \<Longrightarrow>
   eval a (conditional_cost r c) = Some (VNum (slot_load a r c))"
  by (cases r; cases c) (simp_all add: conditional_cost_def slot_load_def)

lemma sum_vals_nums:
  "sum_vals (map (\<lambda>x. Some (VNum (f x))) xs) = Some (VNum (sum_list (map f xs)))"
  by (induction xs) simp_all

lemma eval_load:
  assumes "length cs = length rs" "list_all is_bool_var rs"
    "list_all (\<lambda>c. is_real_var c \<or> is_int_var c) cs"
  shows "eval a (SumE (map (\<lambda>i. conditional_cost (rs ! i) (cs ! i)) [0..<length rs])) =
    Some (VNum (blade_load a rs cs))"
proof -
  have "map (eval a) (map (\<lambda>i. conditional_cost (rs ! i) (cs ! i)) [0..<length rs]) =
      map (\<lambda>i. Some (VNum (slot_load a (rs ! i) (cs ! i)))) [0..<length rs]"
    using assms by (simp add: list_all_length eval_conditional_cost)
  then show ?thesis
    by (simp add: sum_vals_nums blade_load_def del: map_map)
qed

lemma all_vals_True:
  "all_vals vs = Some (VBool True) \<longleftrightarrow> (\<forall>v \<in> set vs. v = Some (VBool True))"
proof (induction vs rule: all_vals.induct)
  case 1
  then show ?case by simp
next
  case (2 b vs)
  then show ?case by (auto split: option.splits val.splits)
qed auto

lemma all_vals_bools:
  "all_vals (map (\<lambda>x. Some (VBool (p x))) xs) = Some (VBool (\<forall>x \<in> set xs. p x))"
  by (induction xs) simp_all

lemma any_vals_bools:
  "any_vals (map (\<lambda>x. Some (VBool (p x))) xs) = Some (VBool (\<exists>x \<in> set xs. p x))"
  by (induction xs) simp_all

lemma le_vals_nums: "le_vals (Some (VNum x)) (Some v) = Some (VBool True) \<longleftrightarrow> (\<exists>y. v = VNum y \<and> x \<le> y)"
  by (cases v) simp_all

lemma eq_vals_True: "eq_vals (Some u) (Some v) = Some (VBool True) \<longleftrightarrow> u = v"
  by (cases u; cases v) simp_all

lemma holds_capacity_constraint:
  assumes "wf_class k" "length (running b) = nat (num_tasks k)" "list_all is_bool_var (running b)"
  shows "holds a (capacity_constraint k b) \<longleftrightarrow>
     (\<exists>x y. val_of (num_cpu b) = VNum x \<and> val_of (total_mem b) = VNum y \<and>
            blade_load a (running b) (cpu k) \<le> x \<and> blade_load a (running b) (mem k) \<le> y)"
proof -
  from assms have lc: "length (cpu k) = length (running b)" and lm: "length (mem k) = length (running b)"
    and kc: "list_all (\<lambda>c. is_real_var c \<or> is_int_var c) (cpu k)"
    and km: "list_all (\<lambda>c. is_real_var c \<or> is_int_var c) (mem k)"
    by (auto simp: wf_class_def list_all_iff)
  from assms(2) have n: "nat (num_tasks k) = length (running b)" by simp
  have "holds a (capacity_constraint k b) \<longleftrightarrow>
      le_vals (Some (VNum (blade_load a (running b) (cpu k)))) (Some (val_of (num_cpu b))) =
        Some (VBool True) \<and>
      le_vals (Some (VNum (blade_load a (running b) (mem k)))) (Some (val_of (total_mem b))) =
        Some (VBool True)"
    unfolding holds_def capacity_constraint_def n
    by (simp only: eval.simps(8) eval.simps(5) eval.simps(2) list.map
        eval_load[OF lc assms(3) kc] eval_load[OF lm assms(3) km] all_vals_True)
      simp
  then show ?thesis
    by (auto simp: le_vals_nums)
qed

lemma eval_non_negative:
  "is_real_var v \<or> is_int_var v \<Longrightarrow>
   eval a (non_negative v) = Some (VBool (0 \<le> num_val (alloc_get a v)))"
  by (cases v) (simp_all add: non_negative_def)

lemma holds_global_constraint:
  assumes "wf_class k"
  shows "holds a (global_constraint k) \<longleftrightarrow>
     (\<forall>v \<in> set (cpu k) \<union> set (mem k). 0 \<le> num_val (alloc_get a v))"
proof -
  from assms have "\<forall>v \<in> set (cpu k) \<union> set (mem k). is_real_var v \<or> is_int_var v"
    by (auto simp: wf_class_def list_all_iff)
  then have "map (eval a) (map non_negative (cpu k) @ map non_negative (mem k)) =
      map (\<lambda>v. Some (VBool (0 \<le> num_val (alloc_get a v)))) (cpu k @ mem k)"
    by (simp add: eval_non_negative)
  then show ?thesis
    unfolding holds_def global_constraint_def
    by (simp only: eval.simps(8) all_vals_bools) simp
qed

lemma eval_placed_on:
  "is_bool_var (running b ! nat i) \<Longrightarrow> eval a (placed_on b i) = Some (VBool (placed a b i))"
  by (cases "running b ! nat i") (simp_all add: placed_on_def placed_def)

lemma holds_assignment_constraint:
  assumes "\<forall>b \<in> set bs. is_bool_var (running b ! nat (tid t))"
  shows "holds a (assignment_constraint k t bs) \<longleftrightarrow>
     alloc_get a (cpu k ! nat (tid t)) = val_of (tcpu t) \<and>
     alloc_get a (mem k ! nat (tid t)) = val_of (tmem t) \<and>
     (\<exists>b \<in> set bs. placed a b (tid t))"
proof -
  have "map (eval a) (map (\<lambda>b. placed_on b (tid t)) bs) =
      map (\<lambda>b. Some (VBool (placed a b (tid t)))) bs"
    using assms by (simp add: eval_placed_on)
  then show ?thesis
    unfolding holds_def assignment_constraint_def
    by (simp only: eval.simps(1,2,7,8,9) list.map all_vals_True any_vals_bools)
      (auto simp: eq_vals_True)
qed

subsection \<open>The variables of the constraint of a task\<close>

lemma wf_blade_bool:
  assumes "wf_heap h" "has_slot h i b" "0 \<le> i"
  shows "is_bool_var (running (blades h ! b) ! nat i)"
proof -
  from assms(2) have b: "b < length (blades h)"
    and i: "i < num_tasks (classes h ! blade_type (blades h ! b))"
    by (simp_all add: has_slot_def)
  from wf_heap_blade[OF assms(1) b] i assms(3) show ?thesis
    by (simp add: wf_blade_def list_all_length)
qed

lemma distinct_concat_nth_less:
  "distinct (map f (concat (map g ks))) \<Longrightarrow> i < j \<Longrightarrow> j < length ks \<Longrightarrow>
   set (g (ks ! i)) \<inter> set (g (ks ! j)) = {}"
proof (induction ks arbitrary: i j)
  case Nil
  then show ?case by simp
next
  case (Cons k ks)
  show ?case
  proof (cases i)
    case 0
    with Cons.prems obtain j' where j: "j = Suc j'" "j' < length ks"
      by (cases j) auto
    from Cons.prems(1) have "f ` set (g k) \<inter> f ` (\<Union>x \<in> set ks. set (g x)) = {}"
      by simp
    then have "set (g k) \<inter> (\<Union>x \<in> set ks. set (g x)) = {}"
      by blast
    moreover have "set (g (ks ! j')) \<subseteq> (\<Union>x \<in> set ks. set (g x))"
      using nth_mem[OF j(2)] by auto
    ultimately have "set (g k) \<inter> set (g (ks ! j')) = {}"
      by blast
    then show ?thesis using 0 j by simp
  next
    case (Suc i')
    with Cons.prems obtain j' where j: "j = Suc j'" "i' < j'" "j' < length ks"
      by (cases j) auto
    from Cons.prems(1) have "distinct (map f (concat (map g ks)))" by simp
    from Cons.IH[OF this j(2,3)] Suc j show ?thesis by simp
  qed
qed

lemma class_vars_disjoint:
  assumes "wf_heap h" "c < length (classes h)" "c' < length (classes h)" "c \<noteq> c'"
  shows "(set (cpu (classes h ! c)) \<union> set (mem (classes h ! c))) \<inter>
         (set (cpu (classes h ! c')) \<union> set (mem (classes h ! c'))) = {}"
proof -
  from assms(1) have d: "distinct (map var_id (concat (map (\<lambda>k. cpu k @ mem k) (classes h))))"
    by (simp add: wf_heap_def class_vars_def)
  from assms(4) consider "c < c'" | "c' < c" by linarith
  then show ?thesis
  proof cases
    case 1
    from distinct_concat_nth_less[OF d 1 assms(3)] show ?thesis by simp
  next
    case 2
    from distinct_concat_nth_less[OF d 2 assms(2)] show ?thesis by (auto simp: Int_commute)
  qed
qed

lemma vars_of_assignment_constraint:
  "vars_of (assignment_constraint k t bs) =
     {cpu k ! nat (tid t), mem k ! nat (tid t)} \<union> (\<lambda>b. running b ! nat (tid t)) ` set bs"
  by (auto simp: assignment_constraint_def placed_on_def)

lemma eval_cong_vars:
  "(\<And>v. v \<in> vars_of e \<Longrightarrow> alloc_get a v = alloc_get a' v) \<Longrightarrow> eval a e = eval a' e"
proof (induction e)
  case (IfE c t e)
  then show ?case by (simp split: option.splits val.splits)
next
  case (SumE es)
  then have "map (eval a) es = map (eval a') es" by (intro map_cong) auto
  then show ?case by (simp only: eval.simps)
next
  case (AllE es)
  then have "map (eval a) es = map (eval a') es" by (intro map_cong) auto
  then show ?case by (simp only: eval.simps)
next
  case (AnyE es)
  then have "map (eval a) es = map (eval a') es" by (intro map_cong) auto
  then show ?case by (simp only: eval.simps)
qed simp_all

subsection \<open>The interpreter's lists and the count of tasks worked\<close>

lemma distinct_py_range: "distinct (py_range n)"
  by (simp add: py_range_def distinct_map)

lemma dedup_union_size:
  "int (length (remdups (concat (map (\<lambda>b. filter (placed a (blades h ! b)) (py_range n)) bls)))) =
   worked_count a (map (\<lambda>b. blades h ! b) bls) n"
proof -
  let ?rs = "map (\<lambda>b. filter (placed a (blades h ! b)) (py_range n)) bls"
  let ?ws = "filter (\<lambda>i. list_ex (\<lambda>b. placed a b i) (map (\<lambda>b. blades h ! b) bls)) (py_range n)"
  have s: "set (concat ?rs) = set ?ws"
    by (auto simp: list_ex_iff)
  have d: "distinct ?ws"
    by (simp add: distinct_py_range)
  have "length (remdups (concat ?rs)) = card (set (concat ?rs))"
    by (rule length_remdups_card_conv)
  also have "\<dots> = card (set ?ws)"
    by (simp only: s)
  also have "\<dots> = length ?ws"
    by (rule distinct_card[OF d])
  finally have "length (remdups (concat ?rs)) = length ?ws" .
  then show ?thesis
    by (simp add: worked_count_def)
qed

subsection \<open>The example configuration\<close>

lemma example_heap_eq:
  "example_heap =
     \<lparr>fresh = 17,
      classes =
        [\<lparr>num_tasks = 2, cpu = [RealVar 0, RealVar 1], mem = [IntVar 2, IntVar 3]\<rparr>,
         \<lparr>num_tasks = 3, cpu = [RealVar 4, RealVar 5, RealVar 6],
           mem = [IntVar 7, IntVar 8, IntVar 9]\<rparr>],
      blades =
        [\<lparr>blade_type = 0, num_cpu = PyInt 8, total_mem = PyInt 128,
           running = [BoolVar 10, BoolVar 11]\<rparr>,
         \<lparr>blade_type = 0, num_cpu = PyInt 8, total_mem = PyInt 128,
           running = [BoolVar 12, BoolVar 13]\<rparr>,
         \<lparr>blade_type = 1, num_cpu = PyInt 16, total_mem = PyInt 256,
           running = [BoolVar 14, BoolVar 15, BoolVar 16]\<rparr>],
      tasks =
        [\<lparr>tid = 0, tcpu = PyInt 2, tmem = PyInt 12\<rparr>,
         \<lparr>tid = 1, tcpu = PyInt 3, tmem = PyInt 48\<rparr>,
         \<lparr>tid = 2, tcpu = PyFloat (4 / 10), tmem = PyInt 1\<rparr>]\<rparr>"
  by (simp add: example_heap_def heap0_def py_bind_def Task_init_run define_blade_run
      Blade_init_run upt_rec nth_append)

lemma wf_example_heap: "wf_heap example_heap"
  by (simp add: example_heap_eq wf_heap_def wf_class_def wf_blade_def class_vars_def)

lemma reachable_example_heap: "reachable example_heap"
proof -
  have "example_heap =
    snd (Blade_init 1 (PyInt 16) (PyInt 256)
      (snd (Blade_init 0 (PyInt 8) (PyInt 128)
        (snd (Blade_init 0 (PyInt 8) (PyInt 128)
          (snd (define_blade 3
            (snd (define_blade 2
              (snd (Task_init 2 (PyFloat (4 / 10)) (PyInt 1)
                (snd (Task_init 1 (PyInt 3) (PyInt 48)
                  (snd (Task_init 0 (PyInt 2) (PyInt 12) heap0)))))))))))))))"
    by (simp add: example_heap_def heap0_def py_bind_def Task_init_run define_blade_run
        Blade_init_run)
  moreover have "reachable \<dots>"
    by (intro reachable.intros)
  ultimately show ?thesis by simp
qed

subsection \<open>What \<^verbatim>\<open>main\<close> does\<close>

text \<open>
  \<^verbatim>\<open>main\<close> creates twenty tasks, one pool and four blades, raises nothing on the way, and
  hands the solver the pool-wide constraint followed by one capacity constraint per blade,
  and one assignment constraint per task. Whatever assignment the solver returns, \<^verbatim>\<open>main\<close>
  reports the solver's count and, for each blade, the slots that the assignment runs
  there; it checks nothing.
\<close>

lemma tasks_comprehension:
  assumes "\<forall>i \<in> set is. 0 \<le> i \<and> i < int (length xs) \<and> i < int (length ys)"
  shows "py_comprehension
      (\<lambda>i. py_bind (py_index xs i) (\<lambda>c. py_bind (py_index ys i) (\<lambda>m. Task_init i c m))) is h =
    (Inr [length (tasks h)..<length (tasks h) + length is],
     h\<lparr>tasks := tasks h @ map (\<lambda>i. \<lparr>tid = i, tcpu = xs ! nat i, tmem = ys ! nat i\<rparr>) is\<rparr>)"
  using assms
proof (induction "is" arbitrary: h)
  case Nil
  then show ?case by (simp add: py_return_def)
next
  case (Cons i "is")
  let ?f = "\<lambda>i. py_bind (py_index xs i) (\<lambda>c. py_bind (py_index ys i) (\<lambda>m. Task_init i c m))"
  let ?h1 = "h\<lparr>tasks := tasks h @ [\<lparr>tid = i, tcpu = xs ! nat i, tmem = ys ! nat i\<rparr>]\<rparr>"
  from Cons.prems have 1: "?f i h = (Inr (length (tasks h)), ?h1)"
    by (simp add: py_bind_def py_index_ok Task_init_run)
  from Cons.prems have "\<forall>i \<in> set is. 0 \<le> i \<and> i < int (length xs) \<and> i < int (length ys)"
    by simp
  from Cons.IH[OF this, of ?h1] have 2: "py_comprehension ?f is ?h1 =
      (Inr [Suc (length (tasks h))..<Suc (length (tasks h) + length is)],
       h\<lparr>tasks := tasks h @ map (\<lambda>i. \<lparr>tid = i, tcpu = xs ! nat i, tmem = ys ! nat i\<rparr>) (i # is)\<rparr>)"
    by simp
  show ?case
    by (simp only: py_comprehension.simps py_bind_Inr[where m="?f i", OF 1]
        py_bind_Inr[where m="py_comprehension ?f is", OF 2] py_return_run)
      (simp add: upt_conv_Cons del: upt_Suc)
qed

lemma blades_comprehension:
  assumes "c < length (classes h)" and "wf_heap h"
  shows "\<exists>h'. py_comprehension (\<lambda>_. Blade_init c x y) is h =
      (Inr [length (blades h)..<length (blades h) + length is], h') \<and>
    wf_heap h' \<and> classes h' = classes h \<and> tasks h' = tasks h \<and>
    length (blades h') = length (blades h) + length is \<and>
    (\<forall>r < length (blades h). blades h' ! r = blades h ! r) \<and>
    (\<forall>r. length (blades h) \<le> r \<and> r < length (blades h') \<longrightarrow>
       blade_type (blades h' ! r) = c \<and> num_cpu (blades h' ! r) = x \<and>
       total_mem (blades h' ! r) = y)"
  using assms
proof (induction "is" arbitrary: h)
  case Nil
  then show ?case by (auto simp: py_return_def)
next
  case (Cons i "is")
  let ?h1 = "snd (Blade_init c x y h)"
  have 1: "Blade_init c x y h = (Inr (length (blades h)), ?h1)"
    using Cons.prems(1) by (simp add: Blade_init_run)
  have h1: "classes ?h1 = classes h" "tasks ?h1 = tasks h"
    "length (blades ?h1) = Suc (length (blades h))"
    "\<forall>r < length (blades h). blades ?h1 ! r = blades h ! r"
    "blade_type (blades ?h1 ! length (blades h)) = c"
    "num_cpu (blades ?h1 ! length (blades h)) = x"
    "total_mem (blades ?h1 ! length (blades h)) = y"
    using Cons.prems(1) by (simp_all add: Blade_init_run nth_append)
  have wf1: "wf_heap ?h1" by (rule wf_Blade_init[OF Cons.prems(2)])
  from Cons.prems(1) h1(1) have c1: "c < length (classes ?h1)" by simp
  from Cons.IH[OF c1 wf1] obtain h' where
    2: "py_comprehension (\<lambda>_. Blade_init c x y) is ?h1 =
        (Inr [length (blades ?h1)..<length (blades ?h1) + length is], h')"
    and p: "wf_heap h'" "classes h' = classes ?h1" "tasks h' = tasks ?h1"
      "length (blades h') = length (blades ?h1) + length is"
      "\<forall>r < length (blades ?h1). blades h' ! r = blades ?h1 ! r"
      "\<forall>r. length (blades ?h1) \<le> r \<and> r < length (blades h') \<longrightarrow>
         blade_type (blades h' ! r) = c \<and> num_cpu (blades h' ! r) = x \<and>
         total_mem (blades h' ! r) = y"
    by blast
  have run: "py_comprehension (\<lambda>_. Blade_init c x y) (i # is) h =
      (Inr [length (blades h)..<length (blades h) + length (i # is)], h')"
    by (simp only: py_comprehension.simps py_bind_Inr[where m="Blade_init c x y", OF 1]
        py_bind_Inr[where m="py_comprehension (\<lambda>_. Blade_init c x y) is", OF 2] py_return_run)
      (simp add: h1 upt_conv_Cons del: upt_Suc)
  have old: "\<forall>r < length (blades h). blades h' ! r = blades h ! r"
    using p(5) h1(3,4) by simp
  have new: "blade_type (blades h' ! r) = c \<and> num_cpu (blades h' ! r) = x \<and>
      total_mem (blades h' ! r) = y"
    if "length (blades h) \<le> r \<and> r < length (blades h')" for r
  proof (cases "r = length (blades h)")
    case True
    with p(5) h1(3,5,6,7) show ?thesis by simp
  next
    case False
    with that h1(3) have "length (blades ?h1) \<le> r \<and> r < length (blades h')" by simp
    with p(6) show ?thesis by blast
  qed
  from run p(1-4) h1(1-3) old new show ?case
    by (intro exI[of _ h']) simp
qed

lemma wf_heap_tasks_update: "wf_heap (h\<lparr>tasks := ts\<rparr>) = wf_heap h"
  by (simp add: wf_heap_def class_vars_def)

lemma main_run:
  "\<exists>h. wf_heap h \<and> length (classes h) = 1 \<and> num_tasks (classes h ! 0) = 20 \<and>
    length (blades h) = 4 \<and> length (tasks h) = 20 \<and>
    (\<forall>allocate. main allocate heap0 =
      (case allocate
          (global_constraint (classes h ! 0) #
             map (\<lambda>b. capacity_constraint (classes h ! 0) (blades h ! b)) [0..<4])
          (map (\<lambda>t. assignment_constraint (classes h ! 0) (tasks h ! t)
                      (map (\<lambda>b. blades h ! b) [0..<4])) [0..<20]) of
         Inl e \<Rightarrow> (Inl e, h)
       | Inr (alloc, worked) \<Rightarrow>
           (Inr (worked, map (\<lambda>b. filter (placed alloc (blades h ! b)) (py_range 20)) [0..<4]), h)))"
proof -
  let ?xs = "concat (replicate 4 [PyFloat (4 / 10), PyInt 2, PyInt 3, PyInt 5, PyInt 7])"
  let ?ys = "concat (replicate 4 [PyInt 1, PyInt 12, PyInt 48, PyInt 64, PyInt 96])"
  let ?mk = "\<lambda>i. py_bind (py_index ?xs i) (\<lambda>c. py_bind (py_index ?ys i) (\<lambda>m. Task_init i c m))"
  let ?h1 = "heap0\<lparr>tasks := tasks heap0 @
      map (\<lambda>i. \<lparr>tid = i, tcpu = ?xs ! nat i, tmem = ?ys ! nat i\<rparr>) (py_range 20)\<rparr>"
  have lx: "int (length ?xs) = 20" and ly: "int (length ?ys) = 20"
    by (simp_all add: eval_nat_numeral)
  have ll: "length ?xs = length ?ys"
    using lx ly by linarith
  have 0: "py_assert (length ?xs = length ?ys) heap0 = (Inr (), heap0)"
    unfolding py_assert_def using ll by (simp only: refl if_True py_return_run)
  have "\<forall>i \<in> set (py_range 20). 0 \<le> i \<and> i < int (length ?xs) \<and> i < int (length ?ys)"
    unfolding lx ly by (simp add: set_py_range)
  from tasks_comprehension[OF this, of heap0]
  have 1: "py_comprehension ?mk (py_range 20) heap0 = (Inr [0..<20], ?h1)"
    by (simp add: heap0_def length_py_range)
  have wf1: "wf_heap ?h1"
    by (simp only: wf_heap_tasks_update wf_heap0)
  have t1: "length (tasks ?h1) = 20" "\<forall>t < 20. tid (tasks ?h1 ! t) = int t"
    by (simp_all add: heap0_def length_py_range py_range_def)
  let ?h2 = "snd (define_blade 20 ?h1)"
  have 2: "define_blade 20 ?h1 = (Inr 0, ?h2)"
    by (simp add: define_blade_run heap0_def)
  have wf2: "wf_heap ?h2" by (rule wf_define_blade[OF wf1])
  have p2: "length (classes ?h2) = 1" "num_tasks (classes ?h2 ! 0) = 20"
    "blades ?h2 = []" "tasks ?h2 = tasks ?h1"
    by (simp_all add: define_blade_run heap0_def)
  from p2(1) have c2: "0 < length (classes ?h2)" by simp
  from blades_comprehension[OF c2 wf2, of "PyInt 8" "PyInt 128" "py_range 4"]
  obtain h where
    3: "py_comprehension (\<lambda>_. Blade_init 0 (PyInt 8) (PyInt 128)) (py_range 4) ?h2 =
        (Inr [0..<4], h)"
    and wf: "wf_heap h" and cl: "classes h = classes ?h2" and ts: "tasks h = tasks ?h2"
    and lb: "length (blades h) = 4"
    and bt: "\<forall>r. r < 4 \<longrightarrow> blade_type (blades h ! r) = 0"
    unfolding p2(3) by (auto simp: length_py_range)
  from cl p2 have ch: "length (classes h) = 1" "num_tasks (classes h ! 0) = 20" by simp_all
  from ts p2(4) t1 have th: "length (tasks h) = 20" "\<forall>t < 20. tid (tasks h ! t) = int t"
    by simp_all
  have c0: "0 < length (classes h)" using ch by simp
  note 4 = Blade_get_global_constraints_run[OF wf c0]
  let ?rc = "global_constraint (classes h ! 0) #
      map (\<lambda>b. capacity_constraint (classes h ! 0) (blades h ! b)) [0..<4]"
  let ?tc = "map (\<lambda>t. assignment_constraint (classes h ! 0) (tasks h ! t)
      (map (\<lambda>b. blades h ! b) [0..<4])) [0..<20]"
  have 5: "py_comprehension Blade_get_constraints [0..<4] h =
      (Inr (map (\<lambda>b. capacity_constraint (classes h ! 0) (blades h ! b)) [0..<4]), h)"
    by (rule py_comprehension_ok) (use wf lb bt in \<open>simp add: Blade_get_constraints_run\<close>)
  have 6: "py_comprehension (\<lambda>t. Task_get_constraints t [0..<4]) [0..<20] h = (Inr ?tc, h)"
  proof (rule py_comprehension_ok)
    fix t assume "t \<in> set [0..<20]"
    then have t: "t < length (tasks h)" "0 \<le> tid (tasks h ! t)" "tid (tasks h ! t) < 20"
      using th by simp_all
    have ne: "[0..<4] \<noteq> ([] :: nat list)" by simp
    have s: "\<forall>b \<in> set [0..<4]. has_slot h (tid (tasks h ! t)) b"
      using lb bt ch t by (simp add: has_slot_def)
    have hd4: "hd [0..<4] = (0::nat)" by (simp add: upt_rec)
    from Task_get_constraints_run[OF wf t(1) ne t(2) s] bt
    show "Task_get_constraints t [0..<4] h =
        (Inr (assignment_constraint (classes h ! 0) (tasks h ! t) (map (\<lambda>b. blades h ! b) [0..<4])), h)"
      unfolding hd4 by simp
  qed
  have bs: "\<forall>b \<in> set [0..<4]. b < length (blades h) \<and>
      20 \<le> num_tasks (classes h ! blade_type (blades h ! b))"
    using lb bt ch by simp
  have "main allocate heap0 =
      (case allocate ?rc ?tc of
         Inl e \<Rightarrow> (Inl e, h)
       | Inr (alloc, worked) \<Rightarrow>
           (Inr (worked, map (\<lambda>b. filter (placed alloc (blades h ! b)) (py_range 20)) [0..<4]), h))"
    for allocate
  proof -
    have m: "main allocate heap0 =
        py_bind (\<lambda>h. (allocate ?rc ?tc, h))
          (\<lambda>(alloc, worked). py_bind (worked_per_blade alloc 20 [0..<4])
             (\<lambda>per_blade. py_return (worked, per_blade))) h"
      unfolding main_def Let_def
      by (simp only: lx nat_int of_nat_numeral
          py_bind_Inr[where m="py_assert (length ?xs = length ?ys)", OF 0]
          py_bind_Inr[where m="py_comprehension ?mk (py_range 20)", OF 1]
          py_bind_Inr[where m="define_blade 20", OF 2]
          py_bind_Inr[where m="py_comprehension (\<lambda>_. Blade_init 0 (PyInt 8) (PyInt 128)) (py_range 4)", OF 3]
          py_bind_Inr[where m="Blade_get_global_constraints 0", OF 4]
          py_bind_Inr[where m="py_comprehension Blade_get_constraints [0..<4]", OF 5]
          py_bind_Inr[where m="py_comprehension (\<lambda>t. Task_get_constraints t [0..<4]) [0..<20]", OF 6])
    show ?thesis
    proof (cases "allocate ?rc ?tc")
      case (Inl e)
      then show ?thesis unfolding m by (simp add: py_bind_def)
    next
      case (Inr p)
      obtain alloc worked where p: "p = (alloc, worked)" by (cases p)
      from worked_per_blade_run[OF wf bs, of alloc] Inr p show ?thesis
        unfolding m by (simp add: py_bind_def py_return_def)
    qed
  qed
  with wf ch lb th(1) show ?thesis by blast
qed

text \<open>
  When the solver reports the count the specification describes, the count \<^verbatim>\<open>main\<close>
  prints is the size of the deduplicated union of the per-blade lists it prints.
\<close>

lemma main_worked_count:
  "\<exists>h. wf_heap h \<and>
    (\<forall>allocate alloc worked.
       allocate
          (global_constraint (classes h ! 0) #
             map (\<lambda>b. capacity_constraint (classes h ! 0) (blades h ! b)) [0..<4])
          (map (\<lambda>t. assignment_constraint (classes h ! 0) (tasks h ! t)
                      (map (\<lambda>b. blades h ! b) [0..<4])) [0..<20]) = Inr (alloc, worked) \<longrightarrow>
       worked = worked_count alloc (map (\<lambda>b. blades h ! b) [0..<4]) 20 \<longrightarrow>
       (\<exists>rs. main allocate heap0 = (Inr (worked, rs), h) \<and>
             int (length (remdups (concat rs))) = worked))"
proof -
  from main_run obtain h where wf: "wf_heap h"
    and m: "\<And>allocate. main allocate heap0 =
      (case allocate
          (global_constraint (classes h ! 0) #
             map (\<lambda>b. capacity_constraint (classes h ! 0) (blades h ! b)) [0..<4])
          (map (\<lambda>t. assignment_constraint (classes h ! 0) (tasks h ! t)
                      (map (\<lambda>b. blades h ! b) [0..<4])) [0..<20]) of
         Inl e \<Rightarrow> (Inl e, h)
       | Inr (alloc, worked) \<Rightarrow>
           (Inr (worked, map (\<lambda>b. filter (placed alloc (blades h ! b)) (py_range 20)) [0..<4]), h))"
    by blast
  show ?thesis
  proof (intro exI[of _ h] conjI allI impI)
    show "wf_heap h" by (rule wf)
  next
    fix allocate :: "expr list \<Rightarrow> expr list \<Rightarrow> py_error + assignment \<times> int"
      and alloc worked
    assume a: "allocate
          (global_constraint (classes h ! 0) #
             map (\<lambda>b. capacity_constraint (classes h ! 0) (blades h ! b)) [0..<4])
          (map (\<lambda>t. assignment_constraint (classes h ! 0) (tasks h ! t)
                      (map (\<lambda>b. blades h ! b) [0..<4])) [0..<20]) = Inr (alloc, worked)"
      and w: "worked = worked_count alloc (map (\<lambda>b. blades h ! b) [0..<4]) 20"
    let ?rs = "map (\<lambda>b. filter (placed alloc (blades h ! b)) (py_range 20)) [0..<4]"
    from m[of allocate] a have "main allocate heap0 = (Inr (worked, ?rs), h)"
      by simp
    moreover from dedup_union_size[of alloc h 20 "[0..<4]"] w
    have "int (length (remdups (concat ?rs))) = worked" by simp
    ultimately show "\<exists>rs. main allocate heap0 = (Inr (worked, rs), h) \<and>
        int (length (remdups (concat rs))) = worked"
      by blast
  qed
qed

section \<open>The claims\<close>

subsection \<open>Pool construction and empty candidate sets\<close>

text \<open>
  C3, as stated: constructing a pool with \<open>num_tasks \<le> 0\<close> fails with a configuration
  error. It does not: \<^verbatim>\<open>define_blade(0)\<close> returns a class.
\<close>

theorem define_blade_nonpositive_counterexample:
  "define_blade 0 heap0 =
     (Inr 0, heap0\<lparr>classes := [\<lparr>num_tasks = 0, cpu = [], mem = []\<rparr>]\<rparr>)"
  by (simp add: define_blade_def py_bind_def py_range_def py_return_def new_class_def heap0_def)

text \<open>
  C3, amended: for every \<open>num_tasks \<le> 0\<close>, \<^verbatim>\<open>define_blade\<close> raises nothing. It returns a
  new pool class that records \<open>num_tasks\<close> as given and has no cost variables; it creates
  no solver variable and changes nothing else.
\<close>

theorem define_blade_nonpositive:
  "n \<le> 0 \<Longrightarrow>
   define_blade n h =
     (Inr (length (classes h)), h\<lparr>classes := classes h @ [\<lparr>num_tasks = n, cpu = [], mem = []\<rparr>]\<rparr>)"
  by (simp add: define_blade_run)

theorem define_blade_nonpositive_witness:
  "(- 3 :: int) \<le> 0 \<and>
   define_blade (- 3) example_heap =
     (Inr 2, example_heap\<lparr>classes := classes example_heap @ [\<lparr>num_tasks = - 3, cpu = [], mem = []\<rparr>]\<rparr>)"
  using define_blade_nonpositive[of "- 3" example_heap]
  by (simp add: example_heap_eq)

text \<open>
  C4, as stated: building the constraints of a task with no candidate blade raises a
  ConfigurationError. It raises an IndexError: \<^verbatim>\<open>blades[0]\<close> is the first thing
  \<^verbatim>\<open>Task.get_constraints\<close> evaluates.
\<close>

theorem empty_candidates_counterexample:
  "Task_get_constraints 0 [] example_heap = (Inl IndexError, example_heap) \<and>
   IndexError \<noteq> ConfigurationError"
  by (simp add: Task_get_constraints_def py_bind_def py_index_def py_raise_def)

text \<open>
  C4, amended: for every task, building its constraints on an empty candidate list raises
  an IndexError and builds no constraint; it never succeeds.
\<close>

theorem empty_candidates_IndexError:
  "Task_get_constraints t [] h = (Inl IndexError, h)"
  by (rule Task_get_constraints_empty)

subsection \<open>Constraint construction has no effect\<close>

text \<open>
  C8: \<^verbatim>\<open>Blade.get_constraints\<close>, \<^verbatim>\<open>Blade.get_global_constraints\<close> and
  \<^verbatim>\<open>Task.get_constraints\<close> leave the heap as it was: every attribute of every blade, class
  and task, and the number of solver variables. This holds whether they return a constraint
  or raise. What they return is a constraint term; no assignment is computed.
\<close>

theorem constraint_construction_pure:
  "snd (Blade_get_constraints b h) = h \<and>
   snd (Blade_get_global_constraints c h) = h \<and>
   snd (Task_get_constraints t bls h) = h"
  using pure_Blade_get_constraints[of b] pure_Blade_get_global_constraints[of c]
    pure_Task_get_constraints[of t bls]
  by (simp add: pure_py_def)

subsection \<open>The capacity constraint of a blade\<close>

text \<open>
  C1: for every blade instance, \<^verbatim>\<open>Blade.get_constraints\<close> returns the conjunction of
  exactly two bounds: the sum over all slots of the conditional CPU contribution
  (\<open>cpu[i]\<close> if \<open>running[i]\<close>, else zero) is at most the blade's CPU capacity, and the same
  for memory. The returned term is \<open>capacity_constraint\<close>, and an assignment satisfies it
  exactly when both capacities are numbers and neither load exceeds its capacity.
\<close>

theorem blade_constraints_capacity:
  assumes "wf_heap h" and "r < length (blades h)"
  shows "Blade_get_constraints r h =
      (Inr (capacity_constraint (classes h ! blade_type (blades h ! r)) (blades h ! r)), h) \<and>
    (\<forall>a. holds a (capacity_constraint (classes h ! blade_type (blades h ! r)) (blades h ! r)) \<longleftrightarrow>
      (\<exists>x y. val_of (num_cpu (blades h ! r)) = VNum x \<and>
             val_of (total_mem (blades h ! r)) = VNum y \<and>
             blade_load a (running (blades h ! r)) (cpu (classes h ! blade_type (blades h ! r))) \<le> x \<and>
             blade_load a (running (blades h ! r)) (mem (classes h ! blade_type (blades h ! r))) \<le> y))"
proof -
  let ?b = "blades h ! r"
  let ?k = "classes h ! blade_type ?b"
  from wf_heap_blade[OF assms] have c: "blade_type ?b < length (classes h)"
    and lr: "length (running ?b) = nat (num_tasks ?k)"
    and br: "list_all is_bool_var (running ?b)"
    by (simp_all add: wf_blade_def)
  from wf_heap_class[OF assms(1) c] have k: "wf_class ?k" .
  show ?thesis
    using Blade_get_constraints_run[OF assms] holds_capacity_constraint[OF k lr br]
    by blast
qed

text \<open>Blade 0 of the example configuration.\<close>

theorem blade_constraints_capacity_witness:
  "wf_heap example_heap \<and> (0::nat) < length (blades example_heap) \<and>
   Blade_get_constraints 0 example_heap =
     (Inr (AllE
        [LeE (SumE [IfE (VarE (BoolVar 10)) (VarE (RealVar 0)) (ConstE (PyInt 0)),
                    IfE (VarE (BoolVar 11)) (VarE (RealVar 1)) (ConstE (PyInt 0))])
             (ConstE (PyInt 8)),
         LeE (SumE [IfE (VarE (BoolVar 10)) (VarE (IntVar 2)) (ConstE (PyInt 0)),
                    IfE (VarE (BoolVar 11)) (VarE (IntVar 3)) (ConstE (PyInt 0))])
             (ConstE (PyInt 128))]), example_heap) \<and>
   blade_load example_alloc [BoolVar 10, BoolVar 11] [RealVar 0, RealVar 1] = 2 \<and>
   blade_load example_alloc [BoolVar 10, BoolVar 11] [IntVar 2, IntVar 3] = 12 \<and>
   holds example_alloc (capacity_constraint (classes example_heap ! 0) (blades example_heap ! 0))"
proof -
  have r: "(0::nat) < length (blades example_heap)"
    by (simp add: example_heap_eq)
  have l: "blade_load example_alloc [BoolVar 10, BoolVar 11] [RealVar 0, RealVar 1] = 2"
    "blade_load example_alloc [BoolVar 10, BoolVar 11] [IntVar 2, IntVar 3] = 12"
    by (simp_all add: blade_load_def slot_load_def example_alloc_def upt_rec)
  from blade_constraints_capacity[OF wf_example_heap r] l wf_example_heap r
  show ?thesis
    by (simp add: example_heap_eq capacity_constraint_def conditional_cost_def upt_rec)
qed

subsection \<open>The assignment constraint of a task\<close>

text \<open>
  C2: for a task with id \<open>i\<close>, costs \<open>(c, m)\<close> and a non-empty list of candidate blades that
  all have slot \<open>i\<close>, \<^verbatim>\<open>Task.get_constraints\<close> returns the conjunction of \<open>cpu[i] == c\<close>,
  \<open>mem[i] == m\<close> on the slot variables of the pool, and the disjunction over every candidate
  of "\<open>running[i]\<close> is true on that blade". An assignment satisfies it exactly when the two
  slot variables have the task's costs and the task runs on at least one candidate.
\<close>

theorem task_constraints_shape:
  assumes "wf_heap h" and "t < length (tasks h)" and "bls \<noteq> []"
    and "0 \<le> tid (tasks h ! t)"
    and "\<forall>b \<in> set bls. has_slot h (tid (tasks h ! t)) b"
  shows "Task_get_constraints t bls h =
      (Inr (assignment_constraint (classes h ! blade_type (blades h ! hd bls)) (tasks h ! t)
              (map (\<lambda>b. blades h ! b) bls)), h) \<and>
    (\<forall>a. holds a (assignment_constraint (classes h ! blade_type (blades h ! hd bls)) (tasks h ! t)
              (map (\<lambda>b. blades h ! b) bls)) \<longleftrightarrow>
       alloc_get a (cpu (classes h ! blade_type (blades h ! hd bls)) ! nat (tid (tasks h ! t))) =
         val_of (tcpu (tasks h ! t)) \<and>
       alloc_get a (mem (classes h ! blade_type (blades h ! hd bls)) ! nat (tid (tasks h ! t))) =
         val_of (tmem (tasks h ! t)) \<and>
       (\<exists>b \<in> set bls. placed a (blades h ! b) (tid (tasks h ! t))))"
proof -
  have "\<forall>b \<in> set (map (\<lambda>b. blades h ! b) bls). is_bool_var (running b ! nat (tid (tasks h ! t)))"
    using assms(1,4,5) by (auto simp: wf_blade_bool)
  from holds_assignment_constraint[OF this] Task_get_constraints_run[OF assms]
  show ?thesis by simp
qed

text \<open>Task 1 of the example configuration, with blades 0 and 1 as candidates.\<close>

theorem task_constraints_shape_witness:
  "wf_heap example_heap \<and> (1::nat) < length (tasks example_heap) \<and> [0, 1::nat] \<noteq> [] \<and>
   0 \<le> tid (tasks example_heap ! 1) \<and>
   has_slot example_heap (tid (tasks example_heap ! 1)) 0 \<and>
   has_slot example_heap (tid (tasks example_heap ! 1)) 1 \<and>
   Task_get_constraints 1 [0, 1] example_heap =
     (Inr (AllE
        [EqE (VarE (RealVar 1)) (ConstE (PyInt 3)),
         EqE (VarE (IntVar 3)) (ConstE (PyInt 48)),
         AnyE [AllE [EqE (VarE (BoolVar 11)) (ConstE (PyBool True))],
               AllE [EqE (VarE (BoolVar 13)) (ConstE (PyBool True))]]]), example_heap) \<and>
   holds example_alloc
     (assignment_constraint (classes example_heap ! 0) (tasks example_heap ! 1)
        [blades example_heap ! 0, blades example_heap ! 1])"
proof -
  have t: "(1::nat) < length (tasks example_heap)" and i: "0 \<le> tid (tasks example_heap ! 1)"
    and s: "\<forall>b \<in> set [0, 1]. has_slot example_heap (tid (tasks example_heap ! 1)) b"
    by (simp_all add: example_heap_eq has_slot_def)
  have ne: "[0, 1::nat] \<noteq> []" by simp
  from task_constraints_shape[OF wf_example_heap t ne i s] wf_example_heap t i s
  show ?thesis
    by (simp add: example_heap_eq assignment_constraint_def placed_on_def placed_def
        example_alloc_def)
qed

subsection \<open>The pool-wide constraint\<close>

text \<open>
  C5: the non-negativity constraint is built from the class object alone. It has one
  conjunct \<open>cpu[i] >= 0\<close> for each of the \<open>num_tasks\<close> CPU slots and one conjunct
  \<open>mem[i] >= 0\<close> for each of the \<open>num_tasks\<close> memory slots, an assignment satisfies it exactly
  when every cost variable of the pool is non-negative, and creating a blade instance does
  not change it.
\<close>

theorem global_constraints_nonneg:
  assumes "wf_heap h" and "c < length (classes h)"
  shows "Blade_get_global_constraints c h = (Inr (global_constraint (classes h ! c)), h) \<and>
    (\<exists>cs. global_constraint (classes h ! c) = AllE cs \<and>
          length cs = 2 * nat (num_tasks (classes h ! c))) \<and>
    (\<forall>a. holds a (global_constraint (classes h ! c)) \<longleftrightarrow>
       (\<forall>i < nat (num_tasks (classes h ! c)).
          0 \<le> num_val (alloc_get a (cpu (classes h ! c) ! i)) \<and>
          0 \<le> num_val (alloc_get a (mem (classes h ! c) ! i)))) \<and>
    (\<forall>c' x y. fst (Blade_get_global_constraints c (snd (Blade_init c' x y h))) =
       Inr (global_constraint (classes h ! c)))"
proof -
  let ?k = "classes h ! c"
  from wf_heap_class[OF assms] have k: "wf_class ?k" .
  then have lc: "length (cpu ?k) = nat (num_tasks ?k)" and lm: "length (mem ?k) = nat (num_tasks ?k)"
    by (simp_all add: wf_class_def)
  have 1: "\<exists>cs. global_constraint ?k = AllE cs \<and> length cs = 2 * nat (num_tasks ?k)"
    by (simp add: global_constraint_def lc lm)
  have 2: "holds a (global_constraint ?k) \<longleftrightarrow>
       (\<forall>i < nat (num_tasks ?k).
          0 \<le> num_val (alloc_get a (cpu ?k ! i)) \<and> 0 \<le> num_val (alloc_get a (mem ?k ! i)))" for a
    unfolding holds_global_constraint[OF k] ball_Un
    by (simp add: all_set_conv_all_nth lc lm) blast
  have 3: "fst (Blade_get_global_constraints c (snd (Blade_init c' x y h))) =
       Inr (global_constraint ?k)" for c' x y
  proof -
    let ?h' = "snd (Blade_init c' x y h)"
    have cl: "classes ?h' = classes h"
      by (cases "c' < length (classes h)") (simp_all add: Blade_init_run Blade_init_dangling)
    from Blade_get_global_constraints_run[OF wf_Blade_init[OF assms(1), of c' x y]] assms(2) cl
    show ?thesis by simp
  qed
  from Blade_get_global_constraints_run[OF assms] 1 2 3 show ?thesis by blast
qed

text \<open>The first pool of the example configuration.\<close>

theorem global_constraints_nonneg_witness:
  "wf_heap example_heap \<and> (0::nat) < length (classes example_heap) \<and>
   Blade_get_global_constraints 0 example_heap =
     (Inr (AllE
        [GeE (VarE (RealVar 0)) (ConstE (PyInt 0)), GeE (VarE (RealVar 1)) (ConstE (PyInt 0)),
         GeE (VarE (IntVar 2)) (ConstE (PyInt 0)), GeE (VarE (IntVar 3)) (ConstE (PyInt 0))]),
      example_heap) \<and>
   holds example_alloc (global_constraint (classes example_heap ! 0))"
proof -
  have c: "(0::nat) < length (classes example_heap)"
    by (simp add: example_heap_eq)
  from global_constraints_nonneg[OF wf_example_heap c] wf_example_heap c
  show ?thesis
    by (simp add: example_heap_eq global_constraint_def non_negative_def example_alloc_def
        holds_def)
qed

subsection \<open>The result interpreter\<close>

text \<open>
  C7: for each blade, the interpreter of \<^verbatim>\<open>main\<close> produces the task ids \<open>i\<close> with
  \<open>0 \<le> i < num_tasks\<close> whose \<open>running[i]\<close> is true on that blade under the assignment, in
  ascending order and each once.
\<close>

theorem worked_per_blade_ordered:
  assumes "wf_heap h"
    and "\<forall>b \<in> set bls. b < length (blades h) \<and>
           n \<le> num_tasks (classes h ! blade_type (blades h ! b))"
  shows "\<exists>rs. worked_per_blade a n bls h = (Inr rs, h) \<and> length rs = length bls \<and>
    (\<forall>j < length bls.
       sorted_wrt (<) (rs ! j) \<and>
       set (rs ! j) = {i. 0 \<le> i \<and> i < n \<and> placed a (blades h ! (bls ! j)) i})"
proof -
  let ?rs = "map (\<lambda>b. filter (placed a (blades h ! b)) (py_range n)) bls"
  have "sorted_wrt (<) (?rs ! j) \<and>
      set (?rs ! j) = {i. 0 \<le> i \<and> i < n \<and> placed a (blades h ! (bls ! j)) i}"
    if "j < length bls" for j
    using that by (auto simp: sorted_wrt_filter sorted_py_range set_py_range)
  with worked_per_blade_run[OF assms, of a] show ?thesis
    by (intro exI[of _ ?rs]) simp
qed

text \<open>Blades 0 and 1 of the example configuration under the example assignment.\<close>

theorem worked_per_blade_ordered_witness:
  "wf_heap example_heap \<and>
   (0::nat) < length (blades example_heap) \<and>
   (2::int) \<le> num_tasks (classes example_heap ! blade_type (blades example_heap ! 0)) \<and>
   (1::nat) < length (blades example_heap) \<and>
   (2::int) \<le> num_tasks (classes example_heap ! blade_type (blades example_heap ! 1)) \<and>
   worked_per_blade example_alloc 2 [0, 1] example_heap = (Inr [[0], [0, 1]], example_heap)"
proof -
  have b: "\<forall>b \<in> set [0, 1]. b < length (blades example_heap) \<and>
      2 \<le> num_tasks (classes example_heap ! blade_type (blades example_heap ! b))"
    by (simp add: example_heap_eq)
  have "map (\<lambda>b. filter (placed example_alloc (blades example_heap ! b)) (py_range 2)) [0, 1] =
      [[0], [0, 1]]"
    by (simp add: example_heap_eq py_range_def placed_def example_alloc_def upt_rec)
  with worked_per_blade_run[OF wf_example_heap b, of example_alloc]
  have r: "worked_per_blade example_alloc 2 [0, 1] example_heap = (Inr [[0], [0, 1]], example_heap)"
    by simp
  from worked_per_blade_ordered[OF wf_example_heap b, of example_alloc] r b wf_example_heap
  show ?thesis by simp
qed

subsection \<open>Indexing by the task id\<close>

text \<open>
  C10: for a task and candidate blades of one pool, \<^verbatim>\<open>Task.get_constraints\<close> succeeds
  when \<open>0 \<le> id < num_tasks\<close> and the candidate list is not empty, and raises an IndexError
  when \<open>id \<ge> num_tasks\<close>.
\<close>

theorem task_slot_indexing:
  assumes "wf_heap h" and "t < length (tasks h)" and "c < length (classes h)"
    and "\<forall>b \<in> set bls. b < length (blades h) \<and> blade_type (blades h ! b) = c"
  shows "(0 \<le> tid (tasks h ! t) \<and> tid (tasks h ! t) < num_tasks (classes h ! c) \<and> bls \<noteq> [] \<longrightarrow>
      (\<exists>e. Task_get_constraints t bls h = (Inr e, h))) \<and>
    (num_tasks (classes h ! c) \<le> tid (tasks h ! t) \<longrightarrow>
      Task_get_constraints t bls h = (Inl IndexError, h))"
proof (intro conjI impI)
  assume a: "0 \<le> tid (tasks h ! t) \<and> tid (tasks h ! t) < num_tasks (classes h ! c) \<and> bls \<noteq> []"
  with assms(4) have "\<forall>b \<in> set bls. has_slot h (tid (tasks h ! t)) b"
    by (simp add: has_slot_def)
  from Task_get_constraints_run[OF assms(1,2) _ _ this] a
  show "\<exists>e. Task_get_constraints t bls h = (Inr e, h)" by blast
next
  assume a: "num_tasks (classes h ! c) \<le> tid (tasks h ! t)"
  have "bls \<noteq> [] \<longrightarrow> num_tasks (classes h ! blade_type (blades h ! hd bls)) \<le> tid (tasks h ! t)"
    using a assms(4) by (cases bls) simp_all
  with assms show "Task_get_constraints t bls h = (Inl IndexError, h)"
    by (intro Task_get_constraints_beyond) simp_all
qed

text \<open>Tasks 1 (id 1) and 2 (id 2) of the example configuration, on the pool of two slots.\<close>

theorem task_slot_indexing_witness:
  "wf_heap example_heap \<and> (1::nat) < length (tasks example_heap) \<and>
   (2::nat) < length (tasks example_heap) \<and> (0::nat) < length (classes example_heap) \<and>
   (0::nat) < length (blades example_heap) \<and> blade_type (blades example_heap ! 0) = 0 \<and>
   (1::nat) < length (blades example_heap) \<and> blade_type (blades example_heap ! 1) = 0 \<and>
   tid (tasks example_heap ! 1) = 1 \<and> tid (tasks example_heap ! 2) = 2 \<and>
   num_tasks (classes example_heap ! 0) = 2 \<and>
   (\<exists>e. Task_get_constraints 1 [0, 1] example_heap = (Inr e, example_heap)) \<and>
   Task_get_constraints 2 [0, 1] example_heap = (Inl IndexError, example_heap)"
proof -
  have f: "(1::nat) < length (tasks example_heap)" "(2::nat) < length (tasks example_heap)"
    "(0::nat) < length (classes example_heap)"
    "(0::nat) < length (blades example_heap)" "blade_type (blades example_heap ! 0) = 0"
    "(1::nat) < length (blades example_heap)" "blade_type (blades example_heap ! 1) = 0"
    "tid (tasks example_heap ! 1) = 1" "tid (tasks example_heap ! 2) = 2"
    "num_tasks (classes example_heap ! 0) = 2"
    by (simp_all add: example_heap_eq)
  have b: "\<forall>b \<in> set [0, 1]. b < length (blades example_heap) \<and>
      blade_type (blades example_heap ! b) = 0"
    using f by simp
  from task_slot_indexing[OF wf_example_heap f(1) f(3) b]
    task_slot_indexing[OF wf_example_heap f(2) f(3) b] f wf_example_heap
  show ?thesis by simp
qed

subsection \<open>Candidates from different pools\<close>

text \<open>
  C9: \<^verbatim>\<open>Task.get_constraints\<close> takes the cost variables from the class of the first
  candidate blade. Its constraint mentions the \<open>cpu\<close> and \<open>mem\<close> slot variables of that
  class, and no cost variable of any other pool class: changing an assignment on the cost
  variables of another class does not change whether the constraint holds.
\<close>

theorem task_constraint_binds_first_pool:
  assumes "wf_heap h" and "t < length (tasks h)" and "bls \<noteq> []"
    and "0 \<le> tid (tasks h ! t)"
    and "\<forall>b \<in> set bls. has_slot h (tid (tasks h ! t)) b"
    and "c' < length (classes h)" and "c' \<noteq> blade_type (blades h ! hd bls)"
  shows "\<exists>e. Task_get_constraints t bls h = (Inr e, h) \<and>
    cpu (classes h ! blade_type (blades h ! hd bls)) ! nat (tid (tasks h ! t)) \<in> vars_of e \<and>
    mem (classes h ! blade_type (blades h ! hd bls)) ! nat (tid (tasks h ! t)) \<in> vars_of e \<and>
    vars_of e \<inter> (set (cpu (classes h ! c')) \<union> set (mem (classes h ! c'))) = {} \<and>
    (\<forall>a a'. (\<forall>v. v \<notin> set (cpu (classes h ! c')) \<union> set (mem (classes h ! c')) \<longrightarrow>
                 alloc_get a' v = alloc_get a v) \<longrightarrow>
            holds a' e = holds a e)"
proof -
  let ?T = "tasks h ! t"
  let ?c = "blade_type (blades h ! hd bls)"
  let ?k = "classes h ! ?c"
  let ?k' = "classes h ! c'"
  let ?e = "assignment_constraint ?k ?T (map (\<lambda>b. blades h ! b) bls)"
  let ?other = "set (cpu ?k') \<union> set (mem ?k')"
  from assms(3,5) have hs: "has_slot h (tid ?T) (hd bls)" by simp
  then have b: "hd bls < length (blades h)" and i: "tid ?T < num_tasks ?k"
    by (simp_all add: has_slot_def)
  from wf_heap_blade[OF assms(1) b] have c: "?c < length (classes h)"
    by (simp add: wf_blade_def)
  from wf_heap_class[OF assms(1) c] i assms(4)
  have "cpu ?k ! nat (tid ?T) \<in> set (cpu ?k)" "mem ?k ! nat (tid ?T) \<in> set (mem ?k)"
    by (simp_all add: wf_class_def)
  with class_vars_disjoint[OF assms(1) c assms(6)] assms(7)
  have cost: "cpu ?k ! nat (tid ?T) \<notin> ?other" "mem ?k ! nat (tid ?T) \<notin> ?other"
    by auto
  have nb: "\<not> is_bool_var v" if "v \<in> ?other" for v
    using wf_heap_class[OF assms(1,6)] that
    by (cases v) (auto simp: wf_class_def list_all_iff)
  have run: "running (blades h ! b) ! nat (tid ?T) \<notin> ?other" if "b \<in> set bls" for b
    using wf_blade_bool[OF assms(1) _ assms(4), of b] assms(5) that nb by blast
  have disj: "vars_of ?e \<inter> ?other = {}"
    unfolding vars_of_assignment_constraint using cost run by auto
  have sem: "holds a' ?e = holds a ?e"
    if "\<forall>v. v \<notin> ?other \<longrightarrow> alloc_get a' v = alloc_get a v" for a a'
  proof -
    have "eval a' ?e = eval a ?e"
      by (rule eval_cong_vars) (use that disj in blast)
    then show ?thesis by (simp add: holds_def)
  qed
  from Task_get_constraints_run[OF assms(1-5)] disj sem show ?thesis
    by (intro exI[of _ ?e]) (simp add: vars_of_assignment_constraint)
qed

text \<open>
  Task 1 of the example configuration with blade 0 (first pool) and blade 2 (second pool)
  as candidates.
\<close>

theorem task_constraint_binds_first_pool_witness:
  "wf_heap example_heap \<and> (1::nat) < length (tasks example_heap) \<and> [0, 2::nat] \<noteq> [] \<and>
   0 \<le> tid (tasks example_heap ! 1) \<and>
   has_slot example_heap (tid (tasks example_heap ! 1)) 0 \<and>
   has_slot example_heap (tid (tasks example_heap ! 1)) 2 \<and>
   (1::nat) < length (classes example_heap) \<and>
   (1::nat) \<noteq> blade_type (blades example_heap ! hd [0, 2]) \<and>
   blade_type (blades example_heap ! 2) = 1 \<and>
   Task_get_constraints 1 [0, 2] example_heap =
     (Inr (AllE
        [EqE (VarE (RealVar 1)) (ConstE (PyInt 3)),
         EqE (VarE (IntVar 3)) (ConstE (PyInt 48)),
         AnyE [AllE [EqE (VarE (BoolVar 11)) (ConstE (PyBool True))],
               AllE [EqE (VarE (BoolVar 15)) (ConstE (PyBool True))]]]), example_heap) \<and>
   set (cpu (classes example_heap ! 1)) \<union> set (mem (classes example_heap ! 1)) =
     {RealVar 4, RealVar 5, RealVar 6, IntVar 7, IntVar 8, IntVar 9}"
proof -
  have f: "(1::nat) < length (tasks example_heap)" "[0, 2::nat] \<noteq> []"
    "0 \<le> tid (tasks example_heap ! 1)"
    "\<forall>b \<in> set [0, 2]. has_slot example_heap (tid (tasks example_heap ! 1)) b"
    "(1::nat) < length (classes example_heap)"
    "(1::nat) \<noteq> blade_type (blades example_heap ! hd [0, 2])"
    by (simp_all add: example_heap_eq has_slot_def)
  have r: "Task_get_constraints 1 [0, 2] example_heap =
     (Inr (AllE
        [EqE (VarE (RealVar 1)) (ConstE (PyInt 3)),
         EqE (VarE (IntVar 3)) (ConstE (PyInt 48)),
         AnyE [AllE [EqE (VarE (BoolVar 11)) (ConstE (PyBool True))],
               AllE [EqE (VarE (BoolVar 15)) (ConstE (PyBool True))]]]), example_heap)"
    unfolding Task_get_constraints_run[OF wf_example_heap f(1-4)]
    by (simp add: example_heap_eq assignment_constraint_def placed_on_def)
  from task_constraint_binds_first_pool[OF wf_example_heap f] r f wf_example_heap
  show ?thesis
    by (auto simp: example_heap_eq)
qed

subsection \<open>Placement on more than one blade\<close>

text \<open>
  C6, as stated: under every assignment that satisfies the constructed constraints, no task
  id runs on two distinct blades. The example assignment satisfies every constraint of the
  example configuration: the pool-wide constraint of both pools, the capacity constraint
  of all three blades, and the constraint of every task (tasks 0 and 1 on the blades of the
  first pool, task 2 on the blade of the second). The interpreter reports task 0 on blade
  0 and on blade 1; it raises nothing.
\<close>

theorem mutual_exclusion_counterexample:
  "satisfies example_alloc (Blade_get_global_constraints 0 example_heap) \<and>
   satisfies example_alloc (Blade_get_global_constraints 1 example_heap) \<and>
   satisfies example_alloc (Blade_get_constraints 0 example_heap) \<and>
   satisfies example_alloc (Blade_get_constraints 1 example_heap) \<and>
   satisfies example_alloc (Blade_get_constraints 2 example_heap) \<and>
   satisfies example_alloc (Task_get_constraints 0 [0, 1] example_heap) \<and>
   satisfies example_alloc (Task_get_constraints 1 [0, 1] example_heap) \<and>
   satisfies example_alloc (Task_get_constraints 2 [2] example_heap) \<and>
   worked_per_blade example_alloc 2 [0, 1] example_heap = (Inr [[0], [0, 1]], example_heap)"
proof -
  have v: "(0::nat) < length (classes example_heap)" "(0::nat) < length (blades example_heap)"
    "(1::nat) < length (blades example_heap)" "(0::nat) < length (tasks example_heap)"
    "(1::nat) < length (tasks example_heap)" "[0, 1::nat] \<noteq> []"
    "0 \<le> tid (tasks example_heap ! 0)" "0 \<le> tid (tasks example_heap ! 1)"
    "\<forall>b \<in> set [0, 1]. has_slot example_heap (tid (tasks example_heap ! 0)) b"
    "\<forall>b \<in> set [0, 1]. has_slot example_heap (tid (tasks example_heap ! 1)) b"
    by (simp_all add: example_heap_eq has_slot_def)
  have u: "(1::nat) < length (classes example_heap)" "(2::nat) < length (blades example_heap)"
    "(2::nat) < length (tasks example_heap)" "[2::nat] \<noteq> []"
    "0 \<le> tid (tasks example_heap ! 2)"
    "\<forall>b \<in> set [2]. has_slot example_heap (tid (tasks example_heap ! 2)) b"
    by (simp_all add: example_heap_eq has_slot_def)
  have g1: "satisfies example_alloc (Blade_get_global_constraints 1 example_heap)"
    unfolding satisfies_def Blade_get_global_constraints_run[OF wf_example_heap u(1)]
    by (simp add: example_heap_eq global_constraint_def non_negative_def holds_def
        example_alloc_def)
  have b2: "satisfies example_alloc (Blade_get_constraints 2 example_heap)"
    unfolding satisfies_def Blade_get_constraints_run[OF wf_example_heap u(2)]
    by (simp add: example_heap_eq capacity_constraint_def conditional_cost_def holds_def
        example_alloc_def upt_rec)
  have t2: "satisfies example_alloc (Task_get_constraints 2 [2] example_heap)"
    unfolding satisfies_def Task_get_constraints_run[OF wf_example_heap u(3) u(4) u(5) u(6)]
    by (simp add: example_heap_eq assignment_constraint_def placed_on_def holds_def
        example_alloc_def)
  have g: "satisfies example_alloc (Blade_get_global_constraints 0 example_heap)"
    unfolding satisfies_def Blade_get_global_constraints_run[OF wf_example_heap v(1)]
    by (simp add: example_heap_eq global_constraint_def non_negative_def holds_def
        example_alloc_def)
  have b0: "satisfies example_alloc (Blade_get_constraints 0 example_heap)"
    unfolding satisfies_def Blade_get_constraints_run[OF wf_example_heap v(2)]
    by (simp add: example_heap_eq capacity_constraint_def conditional_cost_def holds_def
        example_alloc_def upt_rec)
  have b1: "satisfies example_alloc (Blade_get_constraints 1 example_heap)"
    unfolding satisfies_def Blade_get_constraints_run[OF wf_example_heap v(3)]
    by (simp add: example_heap_eq capacity_constraint_def conditional_cost_def holds_def
        example_alloc_def upt_rec)
  have t0: "satisfies example_alloc (Task_get_constraints 0 [0, 1] example_heap)"
    unfolding satisfies_def Task_get_constraints_run[OF wf_example_heap v(4) v(6) v(7) v(9)]
    by (simp add: example_heap_eq assignment_constraint_def placed_on_def holds_def
        example_alloc_def)
  have t1: "satisfies example_alloc (Task_get_constraints 1 [0, 1] example_heap)"
    unfolding satisfies_def Task_get_constraints_run[OF wf_example_heap v(5) v(6) v(8) v(10)]
    by (simp add: example_heap_eq assignment_constraint_def placed_on_def holds_def
        example_alloc_def)
  have b: "\<forall>b \<in> set [0, 1]. b < length (blades example_heap) \<and>
      2 \<le> num_tasks (classes example_heap ! blade_type (blades example_heap ! b))"
    by (simp add: example_heap_eq)
  have "map (\<lambda>b. filter (placed example_alloc (blades example_heap ! b)) (py_range 2)) [0, 1] =
      [[0], [0, 1]]"
    by (simp add: example_heap_eq py_range_def placed_def example_alloc_def upt_rec)
  with worked_per_blade_run[OF wf_example_heap b, of example_alloc]
  have w: "worked_per_blade example_alloc 2 [0, 1] example_heap = (Inr [[0], [0, 1]], example_heap)"
    by simp
  from g g1 b0 b1 b2 t0 t1 t2 w show ?thesis by simp
qed

text \<open>
  C6, amended: under every assignment that satisfies the constructed constraints, the
  union of the per-blade placed-task sequences, deduplicated, has size equal to the
  reported worked count. A task id can appear as running on two distinct blades: what the
  constructed constraints give is that each task runs on at least one of its candidate
  blades, and the program asserts nothing about the assignment.
\<close>

theorem placed_at_least_once:
  assumes "wf_heap h" and "t < length (tasks h)" and "bls \<noteq> []"
    and "c < length (classes h)"
    and "\<forall>b \<in> set bls. b < length (blades h) \<and> blade_type (blades h ! b) = c"
    and "0 \<le> tid (tasks h ! t)" and "tid (tasks h ! t) < num_tasks (classes h ! c)"
    and "satisfies a (Task_get_constraints t bls h)"
  shows "\<exists>rs. worked_per_blade a (num_tasks (classes h ! c)) bls h = (Inr rs, h) \<and>
    (\<exists>j < length rs. tid (tasks h ! t) \<in> set (rs ! j)) \<and>
    int (length (remdups (concat rs))) =
      worked_count a (map (\<lambda>b. blades h ! b) bls) (num_tasks (classes h ! c))"
proof -
  let ?n = "num_tasks (classes h ! c)"
  let ?i = "tid (tasks h ! t)"
  let ?rs = "map (\<lambda>b. filter (placed a (blades h ! b)) (py_range ?n)) bls"
  from assms(5,7) have slots: "\<forall>b \<in> set bls. has_slot h ?i b"
    by (simp add: has_slot_def)
  have bs: "\<forall>b \<in> set bls. b < length (blades h) \<and>
      ?n \<le> num_tasks (classes h ! blade_type (blades h ! b))"
    using assms(5) by simp
  have "\<forall>b \<in> set (map (\<lambda>b. blades h ! b) bls). is_bool_var (running b ! nat ?i)"
    using assms(1,6) slots by (auto simp: wf_blade_bool)
  from holds_assignment_constraint[OF this] assms(8)
  have "\<exists>b \<in> set bls. placed a (blades h ! b) ?i"
    unfolding satisfies_def Task_get_constraints_run[OF assms(1,2,3,6) slots] by simp
  then obtain j where j: "j < length bls" "placed a (blades h ! (bls ! j)) ?i"
    by (auto simp: in_set_conv_nth)
  with assms(6,7) have 1: "\<exists>j < length ?rs. ?i \<in> set (?rs ! j)"
    by (auto simp: set_py_range intro!: exI[of _ j])
  note 2 = dedup_union_size[of a h ?n bls]
  from worked_per_blade_run[OF assms(1) bs, of a] 1 2 show ?thesis
    by (intro exI[of _ ?rs]) simp
qed

text \<open>
  Task 0 of the example configuration under the example assignment: it runs on both
  blades, and the two per-blade lists hold two distinct task ids.
\<close>

theorem placed_at_least_once_witness:
  "wf_heap example_heap \<and> (0::nat) < length (tasks example_heap) \<and> [0, 1::nat] \<noteq> [] \<and>
   (0::nat) < length (classes example_heap) \<and>
   (0::nat) < length (blades example_heap) \<and> blade_type (blades example_heap ! 0) = 0 \<and>
   (1::nat) < length (blades example_heap) \<and> blade_type (blades example_heap ! 1) = 0 \<and>
   0 \<le> tid (tasks example_heap ! 0) \<and>
   tid (tasks example_heap ! 0) < num_tasks (classes example_heap ! 0) \<and>
   satisfies example_alloc (Task_get_constraints 0 [0, 1] example_heap) \<and>
   worked_per_blade example_alloc (num_tasks (classes example_heap ! 0)) [0, 1] example_heap =
     (Inr [[0], [0, 1]], example_heap) \<and>
   tid (tasks example_heap ! 0) \<in> set ([[0], [0, 1]] ! 0) \<and>
   int (length (remdups (concat [[0], [0, 1 :: int]]))) = 2 \<and>
   worked_count example_alloc [blades example_heap ! 0, blades example_heap ! 1]
     (num_tasks (classes example_heap ! 0)) = 2"
proof -
  have f: "(0::nat) < length (tasks example_heap)" "[0, 1::nat] \<noteq> []"
    "(0::nat) < length (classes example_heap)"
    "\<forall>b \<in> set [0, 1]. b < length (blades example_heap) \<and> blade_type (blades example_heap ! b) = 0"
    "0 \<le> tid (tasks example_heap ! 0)"
    "tid (tasks example_heap ! 0) < num_tasks (classes example_heap ! 0)"
    by (simp_all add: example_heap_eq)
  have s: "\<forall>b \<in> set [0, 1]. has_slot example_heap (tid (tasks example_heap ! 0)) b"
    by (simp add: example_heap_eq has_slot_def)
  have t0: "satisfies example_alloc (Task_get_constraints 0 [0, 1] example_heap)"
    unfolding satisfies_def Task_get_constraints_run[OF wf_example_heap f(1) f(2) f(5) s]
    by (simp add: example_heap_eq assignment_constraint_def placed_on_def holds_def
        example_alloc_def)
  have b: "\<forall>b \<in> set [0, 1]. b < length (blades example_heap) \<and>
      num_tasks (classes example_heap ! 0) \<le>
        num_tasks (classes example_heap ! blade_type (blades example_heap ! b))"
    by (simp add: example_heap_eq)
  have "map (\<lambda>b. filter (placed example_alloc (blades example_heap ! b))
          (py_range (num_tasks (classes example_heap ! 0)))) [0, 1] = [[0], [0, 1]]"
    by (simp add: example_heap_eq py_range_def placed_def example_alloc_def upt_rec)
  with worked_per_blade_run[OF wf_example_heap b, of example_alloc]
  have w: "worked_per_blade example_alloc (num_tasks (classes example_heap ! 0)) [0, 1]
      example_heap = (Inr [[0], [0, 1]], example_heap)"
    by simp
  from placed_at_least_once[OF wf_example_heap f t0] w
  have c: "worked_count example_alloc [blades example_heap ! 0, blades example_heap ! 1]
      (num_tasks (classes example_heap ! 0)) = 2"
    by simp
  have i: "tid (tasks example_heap ! 0) \<in> set ([[0], [0, 1]] ! 0)"
    by (simp add: example_heap_eq)
  from wf_example_heap f t0 w c i show ?thesis by simp
qed

end
